theory Spec2Isabelle
  imports Complex_Main "HOL-Library.Word"
begin

unbundle bit_operations_syntax

section \<open>The wall clock\<close>

text \<open>
  \<^verbatim>\<open>time.time()\<close> is the only source of time in the program. The clock is the sequence
  of values that the successive calls return; a call yields the next value and moves
  on. Python floats are taken as real numbers: the values are only subtracted, compared
  with \<open>1.0\<close> and used as a divisor.
\<close>

record clock =
  readings :: "nat \<Rightarrow> real"
  reads :: nat

definition time_time :: "clock \<Rightarrow> real \<times> clock" where
  "time_time c = (readings c (reads c), c\<lparr>reads := Suc (reads c)\<rparr>)"

section \<open>FaceDetectionApp: the FPS counter (face\_detector.py)\<close>

text \<open>
  The three FPS attributes that \<^verbatim>\<open>FaceDetectionApp.__init__\<close> sets after building the
  detector: \<^verbatim>\<open>fps_start_time = time.time()\<close>, \<^verbatim>\<open>fps_frame_count = 0\<close>,
  \<^verbatim>\<open>current_fps = 0\<close>.
\<close>

record fps_app =
  fps_start_time :: real
  fps_frame_count :: int
  current_fps :: real

definition init_app :: "clock \<Rightarrow> fps_app \<times> clock" where
  "init_app c =
     (let (t, c1) = time_time c
      in (\<lparr>fps_start_time = t, fps_frame_count = 0, current_fps = 0\<rparr>, c1))"

text \<open>
  \<^verbatim>\<open>_update_fps\<close>: count the frame, read the clock, and when a second or more has gone
  by since the window start, recompute the rate, clear the counter and read the clock a
  second time for the new window start. The result is the value of \<^verbatim>\<open>current_fps\<close>.
\<close>

definition update_fps :: "fps_app \<Rightarrow> clock \<Rightarrow> real \<times> fps_app \<times> clock" where
  "update_fps a c =
     (let a1 = a\<lparr>fps_frame_count := fps_frame_count a + 1\<rparr>;
          (t, c1) = time_time c;
          elapsed = t - fps_start_time a1
      in if elapsed \<ge> 1 then
           (let a2 = a1\<lparr>current_fps := real_of_int (fps_frame_count a1) / elapsed\<rparr>;
                a3 = a2\<lparr>fps_frame_count := 0\<rparr>;
                (t', c2) = time_time c1;
                a4 = a3\<lparr>fps_start_time := t'\<rparr>
            in (current_fps a4, a4, c2))
         else (current_fps a1, a1, c1))"

text \<open>
  A run of \<open>n\<close> successive calls of \<^verbatim>\<open>_update_fps\<close>, as the frame loops make them (one
  call for each processed frame), with the value each call returned.
\<close>

fun fps_calls :: "nat \<Rightarrow> fps_app \<Rightarrow> clock \<Rightarrow> real list" where
  "fps_calls 0 a c = []"
| "fps_calls (Suc n) a c =
     (case update_fps a c of (v, a', c') \<Rightarrow> v # fps_calls n a' c')"

section \<open>The display loops of face\_detector.py\<close>

text \<open>
  Exceptions are values. The names are those of the Python exceptions the modelled code
  can meet; \<open>OtherError\<close> stands for any further one.
\<close>

datatype exn =
  TypeError | ValueError | AttributeError | IndexError | BinasciiError | CvError
  | InvalidParameter | KeyboardInterrupt | WebSocketDisconnect | OtherError

type_synonym rect = "int \<times> int \<times> int \<times> int"

text \<open>
  \<^verbatim>\<open>utils.detector.FaceDetector\<close> and OpenCV's drawing are outside the modelled files:
  the loops receive them as functions of the frame. \<open>process_frame\<close> returns the
  annotated frame and the faces, \<open>draw_info\<close> overlays the face count and the FPS
  value, \<open>draw_progress\<close> stands for the two \<^verbatim>\<open>cv2.rectangle\<close> calls of the progress
  bar, which are handed the fraction. Each of them may raise.
\<close>

record 'img cv_env =
  process_frame :: "'img \<Rightarrow> exn + ('img \<times> rect list)"
  draw_info :: "'img \<Rightarrow> nat \<Rightarrow> real \<Rightarrow> exn + 'img"
  draw_progress :: "'img \<Rightarrow> real \<Rightarrow> exn + 'img"

text \<open>What a loop does to the outside world, in the order it does it.\<close>

datatype 'img effect =
  CapRead | ProgressBar real | Imshow 'img | OutWrite 'img | Imwrite int 'img
  | CapRelease | OutRelease | DestroyAllWindows

text \<open>
  The state shared by both loops: the frames the capture will still deliver (a read
  from the empty list is \<^verbatim>\<open>ret == False\<close>), the FPS attributes of the application
  object, the clock and the effects so far.
\<close>

record 'img loop_state =
  cap :: "'img list"
  app :: fps_app
  clk :: clock
  effects :: "'img effect list"

record 'img video_state = "'img loop_state" +
  frame_count :: int
  paused :: bool
  total_faces_detected :: int

record 'img webcam_state = "'img loop_state" +
  screenshot_count :: int

text \<open>
  One pass through a loop body ends in one of three ways: the body ran to its end
  (\<open>Continue\<close>), it executed \<^verbatim>\<open>break\<close>, or an exception left it.
\<close>

datatype 'a flow = Continue 'a | Break 'a | Raise exn 'a

text \<open>
  \<^verbatim>\<open>cv2.waitKey\<close> returns the key code or \<open>-1\<close>; it is also the place where an
  interrupt of the user reaches the loop.
\<close>

datatype key_event = Key int | Interrupt exn

definition ord :: "char \<Rightarrow> int" where
  "ord c = of_char c"

text \<open>Line 328: \<^verbatim>\<open>progress = frame_count / total_frames if total_frames > 0 else 0\<close>.\<close>

definition video_progress :: "int \<Rightarrow> int \<Rightarrow> real" where
  "video_progress fc total_frames =
     (if total_frames > 0 then real_of_int fc / real_of_int total_frames else 0)"

text \<open>The keyboard handling at the end of the body of \<^verbatim>\<open>run_video\<close> (lines 351 to 359).\<close>

definition video_key :: "key_event \<Rightarrow> 'img video_state \<Rightarrow> 'img video_state flow" where
  "video_key ev s =
     (case ev of
        Interrupt e \<Rightarrow> Raise e s
      | Key raw \<Rightarrow>
          (let key = raw AND 255
           in if key = ord CHR ''q'' then Break s
              else if key = ord CHR ''p'' then Continue (s\<lparr>paused := \<not> paused s\<rparr>)
              else Continue s))"

text \<open>
  The body of the \<^verbatim>\<open>while True\<close> of \<^verbatim>\<open>run_video\<close> (lines 306 to 359). \<open>out\<close> tells
  whether a video writer is attached (\<^verbatim>\<open>out is not None\<close>).
\<close>

definition video_iteration ::
  "'img cv_env \<Rightarrow> int \<Rightarrow> bool \<Rightarrow> key_event \<Rightarrow> 'img video_state \<Rightarrow> 'img video_state flow" where
  "video_iteration env total_frames out ev s =
     (if \<not> paused s then
        (case cap s of
           [] \<Rightarrow> Break (s\<lparr>effects := effects s @ [CapRead]\<rparr>)
         | frame # rest \<Rightarrow>
             (let s1 = s\<lparr>cap := rest, effects := effects s @ [CapRead],
                        frame_count := frame_count s + 1\<rparr>
              in case process_frame env frame of
                   Inl e \<Rightarrow> Raise e s1
                 | Inr (processed, faces) \<Rightarrow>
                     (let s2 = s1\<lparr>total_faces_detected :=
                                    total_faces_detected s1 + int (length faces)\<rparr>;
                          (current, a', c') = update_fps (app s2) (clk s2);
                          s3 = s2\<lparr>app := a', clk := c'\<rparr>
                      in case draw_info env processed (length faces) current of
                           Inl e \<Rightarrow> Raise e s3
                         | Inr shown \<Rightarrow>
                             (let progress = video_progress (frame_count s3) total_frames
                              in case draw_progress env shown progress of
                                   Inl e \<Rightarrow> Raise e s3
                                 | Inr final \<Rightarrow>
                                     video_key ev
                                       (s3\<lparr>effects := effects s3
                                             @ [ProgressBar progress, Imshow final]
                                             @ (if out then [OutWrite final] else [])\<rparr>)))))
      else video_key ev s)"

text \<open>
  The loop, driven by what \<^verbatim>\<open>cv2.waitKey\<close> delivers, one event for each pass. When the
  events are used up the loop has not ended: the result is \<open>Continue\<close> with the state
  reached.
\<close>

fun video_loop ::
  "'img cv_env \<Rightarrow> int \<Rightarrow> bool \<Rightarrow> 'img video_state \<Rightarrow> key_event list \<Rightarrow> 'img video_state flow" where
  "video_loop env total_frames out s [] = Continue s"
| "video_loop env total_frames out s (ev # evs) =
     (case video_iteration env total_frames out ev s of
        Continue s' \<Rightarrow> video_loop env total_frames out s' evs
      | Break s' \<Rightarrow> Break s'
      | Raise e s' \<Rightarrow> Raise e s')"

text \<open>
  The \<^verbatim>\<open>finally\<close> block of both functions: release the capture, release the writer
  when there is one, close the windows.
\<close>

definition finally_release ::
  "bool \<Rightarrow> ('img, 'z) loop_state_scheme \<Rightarrow> ('img, 'z) loop_state_scheme" where
  "finally_release out s =
     s\<lparr>effects := effects s @ [CapRelease] @ (if out then [OutRelease] else [])
                    @ [DestroyAllWindows]\<rparr>"

text \<open>
  What \<^verbatim>\<open>cv2.VideoCapture\<close> finds: no file (video mode only), a capture that does not
  open, or an open capture with its frames and the frame count it reports.
\<close>

datatype 'img source = Missing | Unopened | Opened "'img list" int

datatype 'a outcome = NotStarted | Running 'a | Returned 'a | Propagated exn 'a

definition end_of_run :: "bool \<Rightarrow> ('img, 'z) loop_state_scheme flow
    \<Rightarrow> ('img, 'z) loop_state_scheme outcome" where
  "end_of_run out r =
     (case r of
        Continue s \<Rightarrow> Running s
      | Break s \<Rightarrow> Returned (finally_release out s)
      | Raise e s \<Rightarrow> Propagated e (finally_release out s))"

text \<open>
  \<^verbatim>\<open>run_video\<close>: the two early returns, the locals, the loop and the \<^verbatim>\<open>finally\<close> block.
  The frame rate, the frame size and the delay of \<^verbatim>\<open>waitKey\<close> only pace the playback
  and size the writer; they are not part of the model.
\<close>

definition run_video ::
  "'img cv_env \<Rightarrow> 'img source \<Rightarrow> bool \<Rightarrow> fps_app \<Rightarrow> clock \<Rightarrow> key_event list
     \<Rightarrow> 'img video_state outcome" where
  "run_video env src save_output a c evs =
     (case src of
        Missing \<Rightarrow> NotStarted
      | Unopened \<Rightarrow> NotStarted
      | Opened frames total_frames \<Rightarrow>
          end_of_run save_output
            (video_loop env total_frames save_output
               \<lparr>cap = frames, app = a, clk = c, effects = [],
                frame_count = 0, paused = False, total_faces_detected = 0\<rparr> evs))"

text \<open>The body of the \<^verbatim>\<open>while True\<close> of \<^verbatim>\<open>run_webcam\<close> (lines 135 to 170).\<close>

definition webcam_key :: "'img \<Rightarrow> key_event \<Rightarrow> 'img webcam_state \<Rightarrow> 'img webcam_state flow" where
  "webcam_key shown ev s =
     (case ev of
        Interrupt e \<Rightarrow> Raise e s
      | Key raw \<Rightarrow>
          (let key = raw AND 255
           in if key = ord CHR ''q'' then Break s
              else if key = ord CHR ''s'' then
                Continue (s\<lparr>effects := effects s @ [Imwrite (screenshot_count s) shown],
                           screenshot_count := screenshot_count s + 1\<rparr>)
              else Continue s))"

definition webcam_iteration ::
  "'img cv_env \<Rightarrow> bool \<Rightarrow> key_event \<Rightarrow> 'img webcam_state \<Rightarrow> 'img webcam_state flow" where
  "webcam_iteration env out ev s =
     (case cap s of
        [] \<Rightarrow> Break (s\<lparr>effects := effects s @ [CapRead]\<rparr>)
      | frame # rest \<Rightarrow>
          (let s1 = s\<lparr>cap := rest, effects := effects s @ [CapRead]\<rparr>
           in case process_frame env frame of
                Inl e \<Rightarrow> Raise e s1
              | Inr (processed, faces) \<Rightarrow>
                  (let (fps, a', c') = update_fps (app s1) (clk s1);
                       s2 = s1\<lparr>app := a', clk := c'\<rparr>
                   in case draw_info env processed (length faces) fps of
                        Inl e \<Rightarrow> Raise e s2
                      | Inr shown \<Rightarrow>
                          webcam_key shown ev
                            (s2\<lparr>effects := effects s2 @ [Imshow shown]
                                  @ (if out then [OutWrite shown] else [])\<rparr>))))"

fun webcam_loop ::
  "'img cv_env \<Rightarrow> bool \<Rightarrow> 'img webcam_state \<Rightarrow> key_event list \<Rightarrow> 'img webcam_state flow" where
  "webcam_loop env out s [] = Continue s"
| "webcam_loop env out s (ev # evs) =
     (case webcam_iteration env out ev s of
        Continue s' \<Rightarrow> webcam_loop env out s' evs
      | Break s' \<Rightarrow> Break s'
      | Raise e s' \<Rightarrow> Raise e s')"

text \<open>
  \<^verbatim>\<open>run_webcam\<close>. A camera has no file to miss and reports no frame count, so only
  \<open>Unopened\<close> returns early; the frames of \<open>Opened\<close> are those the camera delivers
  before a read fails.
\<close>

definition run_webcam ::
  "'img cv_env \<Rightarrow> 'img source \<Rightarrow> bool \<Rightarrow> fps_app \<Rightarrow> clock \<Rightarrow> key_event list
     \<Rightarrow> 'img webcam_state outcome" where
  "run_webcam env src save_output a c evs =
     (case src of
        Missing \<Rightarrow> NotStarted
      | Unopened \<Rightarrow> NotStarted
      | Opened frames total_frames \<Rightarrow>
          end_of_run save_output
            (webcam_loop env save_output
               \<lparr>cap = frames, app = a, clk = c, effects = [], screenshot_count = 0\<rparr> evs))"

text \<open>Reading a run: the state a pass ended in, the state a run has reached, the state a run
  ended in when it has ended, and the fractions handed to the progress bar.\<close>

fun state_of :: "'a flow \<Rightarrow> 'a" where
  "state_of (Continue s) = s"
| "state_of (Break s) = s"
| "state_of (Raise e s) = s"

fun final_state :: "'a outcome \<Rightarrow> 'a option" where
  "final_state NotStarted = None"
| "final_state (Running s) = Some s"
| "final_state (Returned s) = Some s"
| "final_state (Propagated e s) = Some s"

fun exit_state :: "'a outcome \<Rightarrow> 'a option" where
  "exit_state NotStarted = None"
| "exit_state (Running s) = None"
| "exit_state (Returned s) = Some s"
| "exit_state (Propagated e s) = Some s"

fun rendered_progress :: "'img effect list \<Rightarrow> real list" where
  "rendered_progress [] = []"
| "rendered_progress (ProgressBar p # es) = p # rendered_progress es"
| "rendered_progress (_ # es) = rendered_progress es"

text \<open>A stand-in detector for concrete runs: it finds one face in every frame and draws nothing.\<close>

definition stub_cv :: "nat cv_env" where
  "stub_cv =
     \<lparr>process_frame = (\<lambda>f. if f = 0 then Inl CvError else Inr (f, [(10, 10, 40, 40)])),
      draw_info = (\<lambda>f n v. Inr f),
      draw_progress = (\<lambda>f p. Inr f)\<rparr>"

definition stub_clock :: clock where
  "stub_clock = \<lparr>readings = (\<lambda>n. real n / 4), reads = 0\<rparr>"

section \<open>The web application (app.py)\<close>

subsection \<open>Messages\<close>

text \<open>
  A decoded JSON value. \<^verbatim>\<open>receive_json\<close> is taken to deliver a JSON object, the
  mapping of the message contract: \<open>data\<close> is a map from keys to values.
\<close>

datatype json =
  JNull | JBool bool | JInt int | JFloat real | JStr string
  | JArr "json list" | JObj "(string \<times> json) list"

type_synonym bytes = "8 word list"

record detection_result =
  faces_count :: nat
  faces :: "rect list"
  detection_time_ms :: real

text \<open>
  What app.py takes from outside: the parsing of numbers written as strings by
  \<^verbatim>\<open>float()\<close> and \<^verbatim>\<open>int()\<close>, \<^verbatim>\<open>base64.b64decode\<close>, \<^verbatim>\<open>cv2.imdecode\<close> (which returns
  \<^verbatim>\<open>None\<close> for bytes that are no image), the two methods of the global
  \<^verbatim>\<open>FaceDetector\<close> that the handlers call, and \<^verbatim>\<open>round(x, 2)\<close>. \<open>'det\<close> is the state
  of the detector object.
\<close>

record ('img, 'det) web_env =
  str_to_float :: "string \<Rightarrow> real option"
  str_to_int :: "string \<Rightarrow> int option"
  b64decode :: "string \<Rightarrow> exn + bytes"
  imdecode :: "bytes \<Rightarrow> exn + 'img option"
  set_detection_params :: "'det \<Rightarrow> real \<Rightarrow> int \<Rightarrow> exn + 'det"
  detect_faces :: "'det \<Rightarrow> 'img \<Rightarrow> exn + rect list"
  round2 :: "real \<Rightarrow> real"

text \<open>\<^verbatim>\<open>float(v)\<close> and \<^verbatim>\<open>int(v)\<close> on a JSON value; \<^verbatim>\<open>int\<close> of a float truncates towards zero;
  an integer too large for a float, on which \<^verbatim>\<open>float\<close> raises, is left out.\<close>

definition py_float :: "('img, 'det) web_env \<Rightarrow> json \<Rightarrow> exn + real" where
  "py_float env v =
     (case v of
        JFloat r \<Rightarrow> Inr r
      | JInt i \<Rightarrow> Inr (real_of_int i)
      | JBool b \<Rightarrow> Inr (if b then 1 else 0)
      | JStr s \<Rightarrow> (case str_to_float env s of Some r \<Rightarrow> Inr r | None \<Rightarrow> Inl ValueError)
      | _ \<Rightarrow> Inl TypeError)"

definition py_int :: "('img, 'det) web_env \<Rightarrow> json \<Rightarrow> exn + int" where
  "py_int env v =
     (case v of
        JInt i \<Rightarrow> Inr i
      | JFloat r \<Rightarrow> Inr (if r \<ge> 0 then \<lfloor>r\<rfloor> else \<lceil>r\<rceil>)
      | JBool b \<Rightarrow> Inr (if b then 1 else 0)
      | JStr s \<Rightarrow> (case str_to_int env s of Some i \<Rightarrow> Inr i | None \<Rightarrow> Inl ValueError)
      | _ \<Rightarrow> Inl TypeError)"

subsection \<open>The frame payload\<close>

text \<open>\<^verbatim>\<open>s.split(",")\<close>: the pieces of \<open>s\<close> between its commas; never the empty list.\<close>

fun split_comma :: "string \<Rightarrow> string list" where
  "split_comma [] = [[]]"
| "split_comma (c # cs) =
     (if c = CHR '','' then [] # split_comma cs
      else (case split_comma cs of
              w # ws \<Rightarrow> (c # w) # ws
            | [] \<Rightarrow> [[c]]))"

text \<open>
  Lines 143 and 144, and again 210 and 211:
  \<^verbatim>\<open>if "," in frame_data: frame_data = frame_data.split(",")[1]\<close>.
\<close>

definition frame_payload :: "string \<Rightarrow> exn + string" where
  "frame_payload s =
     (if CHR '','' \<in> set s then
        (case split_comma s of
           _ # b # _ \<Rightarrow> Inr b
         | _ \<Rightarrow> Inl IndexError)
      else Inr s)"

text \<open>
  For comparison, the reading of the specification: the data-URI prefix ends at the
  first comma, and what follows the first comma is the payload.
\<close>

definition after_first_comma :: "string \<Rightarrow> string" where
  "after_first_comma s = tl (dropWhile (\<lambda>c. c \<noteq> CHR '','') s)"

text \<open>
  The same two lines on the value under \<^verbatim>\<open>"frame"\<close> of a message, which need not be a
  string: a list or an object has \<^verbatim>\<open>in\<close> but neither \<^verbatim>\<open>split\<close> nor a base64 reading,
  the other values have no \<^verbatim>\<open>in\<close>.
\<close>

definition frame_text :: "json \<Rightarrow> exn + string" where
  "frame_text v =
     (case v of
        JStr s \<Rightarrow> frame_payload s
      | JArr xs \<Rightarrow> (if JStr '','' \<in> set xs then Inl AttributeError else Inl TypeError)
      | JObj kvs \<Rightarrow> (if '','' \<in> fst ` set kvs then Inl AttributeError else Inl TypeError)
      | _ \<Rightarrow> Inl TypeError)"

text \<open>
  Lines 146 to 148, and again 213 to 215: decode the base64 text, then the image.
  \<^verbatim>\<open>np.frombuffer\<close> only wraps the bytes.
\<close>

definition decode_image :: "('img, 'det) web_env \<Rightarrow> string \<Rightarrow> exn + 'img option" where
  "decode_image env s =
     (case b64decode env s of
        Inl e \<Rightarrow> Inl e
      | Inr img_bytes \<Rightarrow> imdecode env img_bytes)"

subsection \<open>Detection on the global detector\<close>

text \<open>
  The process-wide state: the \<^verbatim>\<open>detector\<close> object of line 51 and the clock. Every
  handler works on this one state.
\<close>

record 'det world =
  detector :: 'det
  wclk :: clock

text \<open>The calls a handler makes on the detector, and what it sends to its client.\<close>

datatype 'img call =
  SetDetectionParams real int | DetectFaces 'img | SendJson detection_result

text \<open>
  Lines 157 to 173, and again 219 to 234: set the parameters of the global detector,
  detect between two readings of the clock, build the result. An exception leaves at
  the call that raised it; a parameter update that raises leaves the detector as it
  was.
\<close>

definition timed_detect ::
  "('img, 'det) web_env \<Rightarrow> real \<Rightarrow> int \<Rightarrow> 'img \<Rightarrow> 'det world
     \<Rightarrow> (exn + detection_result) \<times> 'det world \<times> 'img call list" where
  "timed_detect env sf mn img w =
     (case set_detection_params env (detector w) sf mn of
        Inl e \<Rightarrow> (Inl e, w, [SetDetectionParams sf mn])
      | Inr d \<Rightarrow>
          (let (start_time, c1) = time_time (wclk w);
               w1 = w\<lparr>detector := d, wclk := c1\<rparr>
           in case detect_faces env d img of
                Inl e \<Rightarrow> (Inl e, w1, [SetDetectionParams sf mn, DetectFaces img])
              | Inr fs \<Rightarrow>
                  (let (end_time, c2) = time_time c1;
                       detection_time = (end_time - start_time) * 1000
                   in (Inr \<lparr>faces_count = length fs, faces = fs,
                             detection_time_ms = round2 env detection_time\<rparr>,
                       w1\<lparr>wclk := c2\<rparr>,
                       [SetDetectionParams sf mn, DetectFaces img]))))"

subsection \<open>The page endpoint for base64 frames\<close>

datatype http_response = Success detection_result | Status400 | Status500 exn

text \<open>
  \<^verbatim>\<open>detect_base64\<close> (lines 131 to 179): every exception is answered with status 500, an
  undecodable image with status 400.
\<close>

definition detect_base64 ::
  "('img, 'det) web_env \<Rightarrow> string \<Rightarrow> real \<Rightarrow> int \<Rightarrow> 'det world
     \<Rightarrow> http_response \<times> 'det world \<times> 'img call list" where
  "detect_base64 env image_data scale_factor min_neighbors w =
     (case frame_payload image_data of
        Inl e \<Rightarrow> (Status500 e, w, [])
      | Inr txt \<Rightarrow>
          (case decode_image env txt of
             Inl e \<Rightarrow> (Status500 e, w, [])
           | Inr None \<Rightarrow> (Status400, w, [])
           | Inr (Some img) \<Rightarrow>
               (case timed_detect env scale_factor min_neighbors img w of
                  (Inl e, w', cs) \<Rightarrow> (Status500 e, w', cs)
                | (Inr res, w', cs) \<Rightarrow> (Success res, w', cs))))"

subsection \<open>The page endpoint for uploaded images\<close>

text \<open>
  What \<^verbatim>\<open>detect_image\<close> takes from outside beyond the above: \<^verbatim>\<open>detector.process_frame\<close>,
  which detects and draws on the detector as it stands, \<^verbatim>\<open>cv2.imencode\<close>,
  \<^verbatim>\<open>base64.b64encode\<close> and the width and height of the image.
\<close>

record ('img, 'det) upload_ops =
  process_frame_on :: "'det \<Rightarrow> 'img \<Rightarrow> exn + ('img \<times> rect list)"
  imencode :: "'img \<Rightarrow> exn + bytes"
  b64encode :: "bytes \<Rightarrow> string"
  shape :: "'img \<Rightarrow> nat \<times> nat"

record image_result = detection_result +
  image_data :: string
  original_size :: "nat \<times> nat"

datatype upload_response = Processed image_result | Upload400 | Upload500 exn

text \<open>
  \<^verbatim>\<open>detect_image\<close> (lines 70 to 128) on the bytes of the uploaded file: decode, set the
  parameters of the global detector to the form values, process the frame between two
  readings of the clock, encode the result. Every exception is answered with status
  500, an undecodable image with status 400.
\<close>

definition detect_image ::
  "('img, 'det) web_env \<Rightarrow> ('img, 'det) upload_ops \<Rightarrow> bytes \<Rightarrow> real \<Rightarrow> int \<Rightarrow> 'det world
     \<Rightarrow> upload_response \<times> 'det world" where
  "detect_image env ops contents scale_factor min_neighbors w =
     (case imdecode env contents of
        Inl e \<Rightarrow> (Upload500 e, w)
      | Inr None \<Rightarrow> (Upload400, w)
      | Inr (Some img) \<Rightarrow>
          (case set_detection_params env (detector w) scale_factor min_neighbors of
             Inl e \<Rightarrow> (Upload500 e, w)
           | Inr d \<Rightarrow>
               (let (start_time, c1) = time_time (wclk w);
                    w1 = w\<lparr>detector := d, wclk := c1\<rparr>
                in case process_frame_on ops d img of
                     Inl e \<Rightarrow> (Upload500 e, w1)
                   | Inr (processed, fs) \<Rightarrow>
                       (let (end_time, c2) = time_time c1;
                            detection_time = (end_time - start_time) * 1000;
                            w2 = w1\<lparr>wclk := c2\<rparr>
                        in case imencode ops processed of
                             Inl e \<Rightarrow> (Upload500 e, w2)
                           | Inr buffer \<Rightarrow>
                               (Processed
                                  \<lparr>faces_count = length fs, faces = fs,
                                   detection_time_ms = round2 env detection_time,
                                   image_data = ''data:image/jpeg;base64,''
                                                  @ b64encode ops buffer,
                                   original_size = shape ops img\<rparr>,
                                w2)))))"

subsection \<open>The realtime session\<close>

text \<open>The two locals of \<^verbatim>\<open>websocket_detect\<close> that hold the parameters of the session.\<close>

record session =
  scale_factor :: real
  min_neighbors :: int

definition session_defaults :: session where
  "session_defaults = \<lparr>scale_factor = 11 / 10, min_neighbors = 5\<rparr>"

text \<open>Lines 200 to 203: a key that is present overwrites the local.\<close>

definition apply_scale_factor ::
  "('img, 'det) web_env \<Rightarrow> (string \<rightharpoonup> json) \<Rightarrow> session \<Rightarrow> exn + session" where
  "apply_scale_factor env data sess =
     (case data ''scale_factor'' of
        None \<Rightarrow> Inr sess
      | Some v \<Rightarrow>
          (case py_float env v of
             Inl e \<Rightarrow> Inl e
           | Inr r \<Rightarrow> Inr (sess\<lparr>scale_factor := r\<rparr>)))"

definition apply_min_neighbors ::
  "('img, 'det) web_env \<Rightarrow> (string \<rightharpoonup> json) \<Rightarrow> session \<Rightarrow> exn + session" where
  "apply_min_neighbors env data sess =
     (case data ''min_neighbors'' of
        None \<Rightarrow> Inr sess
      | Some v \<Rightarrow>
          (case py_int env v of
             Inl e \<Rightarrow> Inl e
           | Inr n \<Rightarrow> Inr (sess\<lparr>min_neighbors := n\<rparr>)))"

text \<open>
  One pass through the \<^verbatim>\<open>while True\<close> of \<^verbatim>\<open>websocket_detect\<close> after a message has
  arrived (lines 199 to 234). The first component is the exception that left the
  loop, if any; the \<^verbatim>\<open>try\<close> encloses the loop, so an exception ends the session.
\<close>

definition ws_message ::
  "('img, 'det) web_env \<Rightarrow> (string \<rightharpoonup> json) \<Rightarrow> session \<Rightarrow> 'det world
     \<Rightarrow> exn option \<times> session \<times> 'det world \<times> 'img call list" where
  "ws_message env data sess w =
     (case apply_scale_factor env data sess of
        Inl e \<Rightarrow> (Some e, sess, w, [])
      | Inr s1 \<Rightarrow>
          (case apply_min_neighbors env data s1 of
             Inl e \<Rightarrow> (Some e, s1, w, [])
           | Inr s2 \<Rightarrow>
               (case data ''frame'' of
                  None \<Rightarrow> (None, s2, w, [])
                | Some frame_data \<Rightarrow>
                    (case frame_text frame_data of
                       Inl e \<Rightarrow> (Some e, s2, w, [])
                     | Inr txt \<Rightarrow>
                         (case decode_image env txt of
                            Inl e \<Rightarrow> (Some e, s2, w, [])
                          | Inr None \<Rightarrow> (None, s2, w, [])
                          | Inr (Some img) \<Rightarrow>
                              (case timed_detect env (scale_factor s2) (min_neighbors s2)
                                      img w of
                                 (Inl e, w', cs) \<Rightarrow> (Some e, s2, w', cs)
                               | (Inr res, w', cs) \<Rightarrow>
                                   (None, s2, w', cs @ [SendJson res])))))))"

text \<open>
  What \<^verbatim>\<open>receive_json\<close> yields: a message, or \<^verbatim>\<open>WebSocketDisconnect\<close> when the client
  has gone.
\<close>

datatype inbound = Message "string \<rightharpoonup> json" | Disconnect

datatype status = Open | Ended exn

text \<open>
  \<^verbatim>\<open>websocket_detect\<close> on the events of one connection. When the events are used up
  the session is still open, waiting in \<^verbatim>\<open>receive_json\<close>.
\<close>

fun ws_loop ::
  "('img, 'det) web_env \<Rightarrow> inbound list \<Rightarrow> session \<Rightarrow> 'det world
     \<Rightarrow> status \<times> session \<times> 'det world \<times> 'img call list" where
  "ws_loop env [] sess w = (Open, sess, w, [])"
| "ws_loop env (Disconnect # evs) sess w = (Ended WebSocketDisconnect, sess, w, [])"
| "ws_loop env (Message data # evs) sess w =
     (case ws_message env data sess w of
        (Some e, s', w', cs) \<Rightarrow> (Ended e, s', w', cs)
      | (None, s', w', cs) \<Rightarrow>
          (case ws_loop env evs s' w' of
             (st, s'', w'', cs') \<Rightarrow> (st, s'', w'', cs @ cs')))"

definition websocket_detect ::
  "('img, 'det) web_env \<Rightarrow> inbound list \<Rightarrow> 'det world
     \<Rightarrow> status \<times> session \<times> 'det world \<times> 'img call list" where
  "websocket_detect env evs w = ws_loop env evs session_defaults w"

subsection \<open>Several connections on one event loop\<close>

text \<open>
  The handlers are coroutines of one event loop: control passes from one connection to
  another only at an \<^verbatim>\<open>await\<close>, and \<^verbatim>\<open>websocket_detect\<close> awaits only when it accepts,
  receives and sends. From the arrival of a message to the sending of its result a
  handler runs alone, so a run of the server is a sequence of whole message passes,
  each tagged with its connection. A connection that is not open has no handler to
  receive a message.
\<close>

datatype server_event = Connect | Inbound inbound

record 'det server =
  sessions :: "nat \<Rightarrow> session option"
  globals :: "'det world"

definition server_step ::
  "('img, 'det) web_env \<Rightarrow> nat \<times> server_event \<Rightarrow> 'det server
     \<Rightarrow> 'det server \<times> (nat \<times> 'img call) list" where
  "server_step env ev sv =
     (case ev of
        (i, Connect) \<Rightarrow> (sv\<lparr>sessions := (sessions sv)(i := Some session_defaults)\<rparr>, [])
      | (i, Inbound Disconnect) \<Rightarrow> (sv\<lparr>sessions := (sessions sv)(i := None)\<rparr>, [])
      | (i, Inbound (Message data)) \<Rightarrow>
          (case sessions sv i of
             None \<Rightarrow> (sv, [])
           | Some sess \<Rightarrow>
               (case ws_message env data sess (globals sv) of
                  (Some e, s', w', cs) \<Rightarrow>
                    (\<lparr>sessions = (sessions sv)(i := None), globals = w'\<rparr>, map (Pair i) cs)
                | (None, s', w', cs) \<Rightarrow>
                    (\<lparr>sessions = (sessions sv)(i := Some s'), globals = w'\<rparr>,
                     map (Pair i) cs))))"

fun server_run ::
  "('img, 'det) web_env \<Rightarrow> (nat \<times> server_event) list \<Rightarrow> 'det server
     \<Rightarrow> 'det server \<times> (nat \<times> 'img call) list" where
  "server_run env [] sv = (sv, [])"
| "server_run env (ev # evs) sv =
     (case server_step env ev sv of
        (sv', cs) \<Rightarrow> (case server_run env evs sv' of (sv'', cs') \<Rightarrow> (sv'', cs @ cs')))"

text \<open>
  What one connection can observe of a run: the calls made and results sent by its own
  handler. The measured time is blanked: it is a reading of the shared clock.
\<close>

definition blank_time :: "'img call \<Rightarrow> 'img call" where
  "blank_time c =
     (case c of
        SendJson r \<Rightarrow> SendJson (r\<lparr>detection_time_ms := 0\<rparr>)
      | _ \<Rightarrow> c)"

definition observed :: "nat \<Rightarrow> (nat \<times> 'img call) list \<Rightarrow> 'img call list" where
  "observed i cs = map (blank_time \<circ> snd) (filter (\<lambda>p. fst p = i) cs)"

subsection \<open>The detector\<close>

text \<open>
  Modelled from the spec: \<^verbatim>\<open>utils/detector.py\<close> is not among the source files, so the
  parameter state of \<^verbatim>\<open>FaceDetector\<close> and its \<^verbatim>\<open>set_detection_params\<close> follow the
  specification of \<open>DetectionParams\<close>: the scale factor, the neighbour threshold, the
  minimum size and the optional maximum size; \<open>validate\<close> fails when the scale factor
  is at most 1, when a size dimension is negative, or when the maximum size is smaller
  than the minimum size in either axis; an update applies the supplied fields and
  validates, and on failure the previous values are retained and the caller receives
  \<open>InvalidParameter\<close>.
\<close>

record face_detector =
  det_scale_factor :: real
  det_min_neighbors :: int
  det_min_size :: "int \<times> int"
  det_max_size :: "(int \<times> int) option"

definition validate :: "face_detector \<Rightarrow> bool" where
  "validate d =
     (det_scale_factor d > 1
      \<and> fst (det_min_size d) \<ge> 0 \<and> snd (det_min_size d) \<ge> 0
      \<and> (case det_max_size d of
            None \<Rightarrow> True
          | Some (mw, mh) \<Rightarrow>
              mw \<ge> 0 \<and> mh \<ge> 0 \<and> mw \<ge> fst (det_min_size d) \<and> mh \<ge> snd (det_min_size d)))"

definition spec_set_detection_params :: "face_detector \<Rightarrow> real \<Rightarrow> int \<Rightarrow> exn + face_detector" where
  "spec_set_detection_params d sf mn =
     (let d' = d\<lparr>det_scale_factor := sf, det_min_neighbors := mn\<rparr>
      in if validate d' then Inr d' else Inl InvalidParameter)"

text \<open>The detector of line 51, built from the defaults of config.py.\<close>

definition config_detector :: face_detector where
  "config_detector =
     \<lparr>det_scale_factor = 11 / 10, det_min_neighbors = 5, det_min_size = (30, 30),
      det_max_size = None\<rparr>"

text \<open>
  An environment with the specified parameter update; the classifier behind
  \<open>detect_faces\<close> stays a parameter.
\<close>

definition with_spec_detector ::
  "('img, face_detector) web_env \<Rightarrow> ('img, face_detector) web_env" where
  "with_spec_detector env = env\<lparr>set_detection_params := spec_set_detection_params\<rparr>"

text \<open>
  Two detectors agree on what no handler ever sets, the size bounds; two servers look
  alike to connection \<open>i\<close> when they hold the same session for \<open>i\<close> and their
  detectors agree on the size bounds.
\<close>

definition same_bounds :: "face_detector \<Rightarrow> face_detector \<Rightarrow> bool" where
  "same_bounds d1 d2 =
     (det_min_size d1 = det_min_size d2 \<and> det_max_size d1 = det_max_size d2)"

definition alike_for :: "nat \<Rightarrow> face_detector server \<Rightarrow> face_detector server \<Rightarrow> bool" where
  "alike_for i sv1 sv2 =
     (sessions sv1 i = sessions sv2 i
      \<and> same_bounds (detector (globals sv1)) (detector (globals sv2)))"

subsection \<open>A stand-in environment for concrete runs\<close>

text \<open>
  The library functions at the few inputs the concrete runs below use. The text
  \<open>aW1n\<close> is the base64 of three bytes, which here stand for an encoded picture that
  \<open>imdecode\<close> reads as image 1; \<open>AAAA\<close> is the base64 of three zero bytes, which are no
  image; \<open>not-base64-or-not-an-image\<close> has 21 characters of the base64 alphabet, one
  more than a multiple of four, which \<open>b64decode\<close> refuses; the empty text decodes to
  no bytes, on which \<open>imdecode\<close> raises; in \<open>aW1n,AAAA\<close> the comma is outside the
  alphabet and is passed over, which gives the six bytes of both pieces, no image. The
  classifier finds one face.
\<close>

definition stub_web :: "(nat, face_detector) web_env" where
  "stub_web =
     \<lparr>str_to_float = (\<lambda>s. if s = ''1.2'' then Some (12 / 10) else None),
      str_to_int = (\<lambda>s. if s = ''3'' then Some 3 else None),
      b64decode = (\<lambda>s. if s = ''aW1n'' then Inr [105, 109, 103]
                        else if s = ''AAAA'' then Inr [0, 0, 0]
                        else if s = ''aW1n,AAAA'' then Inr [105, 109, 103, 0, 0, 0]
                        else if s = [] then Inr []
                        else Inl BinasciiError),
      imdecode = (\<lambda>bs. if bs = [] then Inl CvError
                        else if bs = [105, 109, 103] then Inr (Some 1)
                        else Inr None),
      set_detection_params = spec_set_detection_params,
      detect_faces = (\<lambda>d img. Inr [(30, 30, 40, 40)]),
      round2 = (\<lambda>x. x)\<rparr>"

definition stub_world :: "face_detector world" where
  "stub_world = \<lparr>detector = config_detector, wclk = stub_clock\<rparr>"

text \<open>For the upload endpoint: one face again, and a result that encodes to \<open>aW1n\<close>.\<close>

definition stub_ops :: "(nat, face_detector) upload_ops" where
  "stub_ops =
     \<lparr>process_frame_on = (\<lambda>d img. Inr (img, [(30, 30, 40, 40)])),
      imencode = (\<lambda>img. Inr [105, 109, 103]),
      b64encode = (\<lambda>bs. ''aW1n''),
      shape = (\<lambda>img. (100, 100))\<rparr>"

section \<open>Properties of the FPS counter\<close>

lemma update_fps_before_window:
  assumes "readings c (reads c) - fps_start_time a < 1"
  shows "update_fps a c =
           (current_fps a, a\<lparr>fps_frame_count := fps_frame_count a + 1\<rparr>,
            c\<lparr>reads := Suc (reads c)\<rparr>)"
  using assms by (simp add: update_fps_def time_time_def Let_def)

lemma update_fps_window_closed:
  assumes "readings c (reads c) - fps_start_time a \<ge> 1"
  shows "update_fps a c =
           (real_of_int (fps_frame_count a + 1) / (readings c (reads c) - fps_start_time a),
            \<lparr>fps_start_time = readings c (Suc (reads c)), fps_frame_count = 0,
             current_fps = real_of_int (fps_frame_count a + 1)
                             / (readings c (reads c) - fps_start_time a)\<rparr>,
            c\<lparr>reads := Suc (Suc (reads c))\<rparr>)"
  using assms by (simp add: update_fps_def time_time_def Let_def)

text \<open>
  Claim C5. A call of \<^verbatim>\<open>_update_fps\<close> that reads the clock less than one second after
  the window start leaves \<^verbatim>\<open>current_fps\<close> as it was and returns that held value (the
  counter has grown by one, the window start stands). A call that reads the clock one
  second or more after the window start sets \<^verbatim>\<open>current_fps\<close> to the frames of the
  window, this one included, divided by the elapsed time, clears the counter, takes
  the next reading of the clock as the new window start and returns the new value.
\<close>

theorem update_fps_holds_then_recomputes:
  assumes "update_fps a c = (v, a', c')"
    and "elapsed = readings c (reads c) - fps_start_time a"
  shows "(elapsed < 1 \<longrightarrow>
            current_fps a' = current_fps a \<and> v = current_fps a
            \<and> fps_frame_count a' = fps_frame_count a + 1
            \<and> fps_start_time a' = fps_start_time a)
       \<and> (elapsed \<ge> 1 \<longrightarrow>
            current_fps a' = real_of_int (fps_frame_count a + 1) / elapsed
            \<and> fps_frame_count a' = 0
            \<and> fps_start_time a' = readings c (Suc (reads c))
            \<and> v = current_fps a')"
proof (cases "elapsed < 1")
  case True
  then have "update_fps a c =
      (current_fps a, a\<lparr>fps_frame_count := fps_frame_count a + 1\<rparr>, c\<lparr>reads := Suc (reads c)\<rparr>)"
    using assms(2) by (simp add: update_fps_before_window)
  with assms(1) True show ?thesis by auto
next
  case False
  then have "elapsed \<ge> 1" by simp
  then have "update_fps a c =
      (real_of_int (fps_frame_count a + 1) / elapsed,
       \<lparr>fps_start_time = readings c (Suc (reads c)), fps_frame_count = 0,
        current_fps = real_of_int (fps_frame_count a + 1) / elapsed\<rparr>,
       c\<lparr>reads := Suc (Suc (reads c))\<rparr>)"
    using assms(2) by (simp add: update_fps_window_closed)
  with assms(1) False show ?thesis by auto
qed

text \<open>
  The theorem at work: with three frames counted and the held value 7, a call a
  quarter of a second into the window returns 7; a call two seconds into it counts
  the fourth frame and returns 4 / 2.
\<close>

theorem update_fps_holds_then_recomputes_witness:
  "update_fps \<lparr>fps_start_time = 0, fps_frame_count = 3, current_fps = 7\<rparr>
       (stub_clock\<lparr>reads := 1\<rparr>)
     = (7, \<lparr>fps_start_time = 0, fps_frame_count = 4, current_fps = 7\<rparr>,
        stub_clock\<lparr>reads := 2\<rparr>)
   \<and> readings (stub_clock\<lparr>reads := 1\<rparr>) 1 - 0 < 1
   \<and> update_fps \<lparr>fps_start_time = 0, fps_frame_count = 3, current_fps = 7\<rparr>
       (stub_clock\<lparr>reads := 8\<rparr>)
     = (2, \<lparr>fps_start_time = 9 / 4, fps_frame_count = 0, current_fps = 2\<rparr>,
        stub_clock\<lparr>reads := 10\<rparr>)
   \<and> readings (stub_clock\<lparr>reads := 8\<rparr>) 8 - 0 \<ge> 1"
proof -
  let ?a = "\<lparr>fps_start_time = 0, fps_frame_count = 3, current_fps = 7\<rparr>"
  have e1: "update_fps ?a (stub_clock\<lparr>reads := 1\<rparr>)
      = (7, \<lparr>fps_start_time = 0, fps_frame_count = 4, current_fps = 7\<rparr>,
         stub_clock\<lparr>reads := 2\<rparr>)"
    by (simp add: update_fps_def time_time_def stub_clock_def)
  have e2: "update_fps ?a (stub_clock\<lparr>reads := 8\<rparr>)
      = (2, \<lparr>fps_start_time = 9 / 4, fps_frame_count = 0, current_fps = 2\<rparr>,
         stub_clock\<lparr>reads := 10\<rparr>)"
    by (simp add: update_fps_def time_time_def stub_clock_def)
  have r1: "readings (stub_clock\<lparr>reads := 1\<rparr>) 1 - 0 < 1"
    and r2: "readings (stub_clock\<lparr>reads := 8\<rparr>) 8 - 0 \<ge> 1"
    by (simp_all add: stub_clock_def)
  from update_fps_holds_then_recomputes [OF e1 refl] update_fps_holds_then_recomputes [OF e2 refl]
    e1 e2 r1 r2
  show ?thesis by simp
qed

lemma fps_calls_held:
  "k < n \<Longrightarrow> \<forall>j\<le>k. readings c (reads c + j) - fps_start_time a < 1
     \<Longrightarrow> fps_calls n a c ! k = current_fps a"
proof (induction n arbitrary: a c k)
  case 0
  then show ?case by simp
next
  case (Suc n)
  from Suc.prems(2) have now: "readings c (reads c) - fps_start_time a < 1"
    by (metis add.right_neutral le0)
  note step = update_fps_before_window [OF now]
  show ?case
  proof (cases k)
    case 0
    then show ?thesis by (simp add: step)
  next
    case (Suc k')
    let ?a = "a\<lparr>fps_frame_count := fps_frame_count a + 1\<rparr>"
    let ?c = "c\<lparr>reads := Suc (reads c)\<rparr>"
    have "\<forall>j\<le>k'. readings ?c (reads ?c + j) - fps_start_time ?a < 1"
      using Suc.prems(2) Suc by (auto dest: spec [where x = "Suc _"])
    moreover have "k' < n" using Suc.prems(1) Suc by simp
    ultimately have "fps_calls n ?a ?c ! k' = current_fps ?a"
      by (rule Suc.IH [rotated])
    then show ?thesis by (simp add: step Suc)
  qed
qed

text \<open>
  Claim C10. The application object is built at the clock reading \<open>readings c0 (reads c0)\<close>;
  the clock never runs backwards; \<open>d\<close> readings are taken elsewhere before the first
  frame. Then every call of \<^verbatim>\<open>_update_fps\<close> whose reading of the clock lies less than
  one second after the construction returns 0, the initial value of \<^verbatim>\<open>current_fps\<close>.
\<close>

theorem update_fps_zero_in_first_window:
  assumes "init_app c0 = (a, c1)"
    and "\<forall>i j. i \<le> j \<longrightarrow> readings c0 i \<le> readings c0 j"
    and "k < n"
    and "readings c0 (reads c1 + d + k) - readings c0 (reads c0) < 1"
  shows "fps_calls n a (c1\<lparr>reads := reads c1 + d\<rparr>) ! k = 0"
proof -
  from assms(1) have a: "a = \<lparr>fps_start_time = readings c0 (reads c0), fps_frame_count = 0,
      current_fps = 0\<rparr>" and c1: "c1 = c0\<lparr>reads := Suc (reads c0)\<rparr>"
    by (simp_all add: init_app_def time_time_def)
  let ?c = "c1\<lparr>reads := reads c1 + d\<rparr>"
  have "\<forall>j\<le>k. readings ?c (reads ?c + j) - fps_start_time a < 1"
  proof (intro allI impI)
    fix j assume "j \<le> k"
    then have "readings c0 (reads c1 + d + j) \<le> readings c0 (reads c1 + d + k)"
      using assms(2) by simp
    with assms(4) show "readings ?c (reads ?c + j) - fps_start_time a < 1"
      by (simp add: a c1)
  qed
  from fps_calls_held [OF assms(3) this] show ?thesis by (simp add: a)
qed

text \<open>
  The theorem at work: with a clock that advances a quarter of a second from reading
  to reading, the third call after the construction returns 0; the run of four calls
  returns 0, 0, 0 and then 4, the rate of the first full window.
\<close>

theorem update_fps_zero_in_first_window_witness:
  "fps_calls 4 (fst (init_app stub_clock)) (snd (init_app stub_clock)) ! 2 = 0
   \<and> readings stub_clock 3 - readings stub_clock 0 < 1
   \<and> fps_calls 4 (fst (init_app stub_clock)) (snd (init_app stub_clock)) = [0, 0, 0, 4]"
proof -
  have i: "init_app stub_clock = (fst (init_app stub_clock), snd (init_app stub_clock))"
    by simp
  have m: "\<forall>i j. i \<le> j \<longrightarrow> readings stub_clock i \<le> readings stub_clock j"
    by (simp add: stub_clock_def divide_right_mono)
  have r: "reads (snd (init_app stub_clock)) = 1" "reads stub_clock = 0"
    by (simp_all add: init_app_def time_time_def stub_clock_def)
  have b: "readings stub_clock (reads (snd (init_app stub_clock)) + 0 + 2)
             - readings stub_clock (reads stub_clock) < 1"
    by (simp add: r) (simp add: stub_clock_def)
  have k: "(2::nat) < 4" by simp
  have run: "fps_calls 4 (fst (init_app stub_clock)) (snd (init_app stub_clock)) = [0, 0, 0, 4]"
    by (simp add: numeral_eq_Suc init_app_def update_fps_def time_time_def stub_clock_def)
  from update_fps_zero_in_first_window [OF i m k b] run show ?thesis
    by (simp add: stub_clock_def)
qed

section \<open>Properties of the display loops\<close>

lemma video_progress_nonneg: "0 \<le> fc \<Longrightarrow> 0 \<le> video_progress fc tf"
  by (simp add: video_progress_def)

lemma video_progress_le_one: "fc \<le> tf \<Longrightarrow> video_progress fc tf \<le> 1"
  by (simp add: video_progress_def)

lemma video_progress_mono: "fc \<le> fc' \<Longrightarrow> video_progress fc tf \<le> video_progress fc' tf"
  by (simp add: video_progress_def divide_right_mono)

lemma video_progress_one: "0 < fc \<Longrightarrow> video_progress fc tf = 1 \<longleftrightarrow> fc = tf"
  by (auto simp add: video_progress_def)

lemma rendered_progress_append:
  "rendered_progress (xs @ ys) = rendered_progress xs @ rendered_progress ys"
  by (induction xs rule: rendered_progress.induct) simp_all

lemma video_key_cases:
  "video_key ev s = Continue s \<or> video_key ev s = Continue (s\<lparr>paused := \<not> paused s\<rparr>)
   \<or> video_key ev s = Break s \<or> (\<exists>e. video_key ev s = Raise e s)"
  by (cases ev) (simp_all add: video_key_def Let_def)

lemma video_key_state:
  "cap (state_of (video_key ev s)) = cap s"
  "frame_count (state_of (video_key ev s)) = frame_count s"
  "effects (state_of (video_key ev s)) = effects s"
  using video_key_cases [of ev s] by auto

text \<open>
  Claim C8. A pass through the loop of \<^verbatim>\<open>run_video\<close> that starts with \<^verbatim>\<open>paused\<close> set
  reads no frame: whatever the key and however the pass ends, the frames still to be
  read, \<^verbatim>\<open>frame_count\<close> and the effects (among them the reads of the capture) are
  what they were before the pass.
\<close>

theorem paused_iteration_reads_nothing:
  assumes "paused s"
  shows "cap (state_of (video_iteration env total_frames out ev s)) = cap s
       \<and> frame_count (state_of (video_iteration env total_frames out ev s)) = frame_count s
       \<and> effects (state_of (video_iteration env total_frames out ev s)) = effects s"
  using assms by (simp add: video_iteration_def video_key_state)

text \<open>What one pass of the video loop does to the counter and to the effects.\<close>

lemma video_iteration_shape:
  "(\<exists>r. video_iteration env tf out ev s = r \<and> frame_count (state_of r) = frame_count s
        \<and> effects (state_of r) = effects s)
   \<or> (\<exists>s'. video_iteration env tf out ev s = Break s' \<and> effects s' = effects s @ [CapRead])
   \<or> (\<exists>e s'. video_iteration env tf out ev s = Raise e s'
         \<and> effects s' = effects s @ [CapRead])
   \<or> (\<exists>r img. video_iteration env tf out ev s = r
         \<and> frame_count (state_of r) = frame_count s + 1
         \<and> effects (state_of r) = effects s @ [CapRead]
              @ [ProgressBar (video_progress (frame_count s + 1) tf), Imshow img]
              @ (if out then [OutWrite img] else []))"
proof (cases "paused s")
  case True
  then show ?thesis by (simp add: video_iteration_def video_key_state)
next
  case False
  show ?thesis
  proof (cases "cap s")
    case Nil
    with False show ?thesis by (simp add: video_iteration_def)
  next
    case (Cons frame rest)
    show ?thesis
    proof (cases "process_frame env frame")
      case (Inl e)
      with False Cons show ?thesis by (simp add: video_iteration_def)
    next
      case (Inr pf)
      obtain processed fs where pf: "pf = (processed, fs)" by (cases pf)
      obtain current a' c' where u: "update_fps (app s) (clk s) = (current, a', c')"
        by (cases "update_fps (app s) (clk s)")
      show ?thesis
      proof (cases "draw_info env processed (length fs) current")
        case (Inl e)
        with False Cons Inr pf u show ?thesis by (simp add: video_iteration_def)
      next
        case shown: (Inr shown)
        show ?thesis
        proof (cases "draw_progress env shown (video_progress (frame_count s + 1) tf)")
          case (Inl e)
          with False Cons Inr pf u shown show ?thesis by (simp add: video_iteration_def)
        next
          case final: (Inr final)
          with False Cons Inr pf u shown show ?thesis
            by (simp add: video_iteration_def video_key_state)
        qed
      qed
    qed
  qed
qed


lemma video_iteration_effects:
  "\<exists>extra. effects (state_of (video_iteration env tf out ev s)) = effects s @ extra
     \<and> CapRelease \<notin> set extra \<and> OutRelease \<notin> set extra
     \<and> (rendered_progress extra = []
          \<and> ((\<exists>s'. video_iteration env tf out ev s = Continue s')
               \<longrightarrow> frame_count (state_of (video_iteration env tf out ev s)) = frame_count s)
        \<or> rendered_progress extra = [video_progress (frame_count s + 1) tf]
          \<and> frame_count (state_of (video_iteration env tf out ev s)) = frame_count s + 1)"
  using video_iteration_shape [of env tf out ev s]
  by (elim disjE exE conjE) (force+)

lemma video_loop_effects:
  assumes "frame_count s = int m"
  shows "\<exists>extra m'. effects (state_of (video_loop env tf out s evs)) = effects s @ extra
     \<and> CapRelease \<notin> set extra \<and> OutRelease \<notin> set extra \<and> m \<le> m'
     \<and> rendered_progress extra = map (\<lambda>k. video_progress (int k) tf) [Suc m..<Suc m']"
  using assms
proof (induction evs arbitrary: s m)
  case Nil
  show ?case by (rule exI [of _ "[]"], rule exI [of _ m]) simp
next
  case (Cons ev evs)
  let ?r = "video_iteration env tf out ev s"
  let ?f = "\<lambda>k. video_progress (int k) tf"
  from video_iteration_effects [of env tf out ev s]
  obtain x1 where x1: "effects (state_of ?r) = effects s @ x1"
      "CapRelease \<notin> set x1" "OutRelease \<notin> set x1"
    and alt: "rendered_progress x1 = []
          \<and> ((\<exists>s'. ?r = Continue s') \<longrightarrow> frame_count (state_of ?r) = frame_count s)
        \<or> rendered_progress x1 = [video_progress (frame_count s + 1) tf]
          \<and> frame_count (state_of ?r) = frame_count s + 1"
    by blast
  have fs: "video_progress (frame_count s + 1) tf = ?f (Suc m)"
    using Cons.prems by (simp add: add.commute)
  show ?case
  proof (cases ?r)
    case (Continue s1)
    from alt Continue Cons.prems obtain m1 where m1: "frame_count s1 = int m1" "m \<le> m1"
      and r1: "rendered_progress x1 = map ?f [Suc m..<Suc m1]"
    proof (elim disjE conjE)
      assume "rendered_progress x1 = []"
        "(\<exists>s'. ?r = Continue s') \<longrightarrow> frame_count (state_of ?r) = frame_count s"
      with Continue Cons.prems have "frame_count s1 = int m" "m \<le> m"
        "rendered_progress x1 = map ?f [Suc m..<Suc m]" by simp_all
      then show ?thesis by (rule that)
    next
      assume "rendered_progress x1 = [video_progress (frame_count s + 1) tf]"
        "frame_count (state_of ?r) = frame_count s + 1"
      with Continue Cons.prems fs have "frame_count s1 = int (Suc m)" "m \<le> Suc m"
        "rendered_progress x1 = map ?f [Suc m..<Suc (Suc m)]" by simp_all
      then show ?thesis by (rule that)
    qed
    from Cons.IH [OF m1(1)] obtain x2 m' where x2:
      "effects (state_of (video_loop env tf out s1 evs)) = effects s1 @ x2"
      "CapRelease \<notin> set x2" "OutRelease \<notin> set x2" "m1 \<le> m'"
      "rendered_progress x2 = map ?f [Suc m1..<Suc m']"
      by blast
    have "[Suc m..<Suc m1] @ [Suc m1..<Suc m'] = [Suc m..<Suc m']"
      using m1(2) x2(4) by (metis Suc_le_mono le_Suc_ex upt_add_eq_append)
    then have "map ?f [Suc m..<Suc m1] @ map ?f [Suc m1..<Suc m'] = map ?f [Suc m..<Suc m']"
      by (metis map_append)
    with x1 x2 r1 m1 Continue
    have "effects (state_of (video_loop env tf out s (ev # evs))) = effects s @ (x1 @ x2)
       \<and> CapRelease \<notin> set (x1 @ x2) \<and> OutRelease \<notin> set (x1 @ x2) \<and> m \<le> m'
       \<and> rendered_progress (x1 @ x2) = map ?f [Suc m..<Suc m']"
      by (simp add: rendered_progress_append)
    then show ?thesis by blast
  next
    case (Break s1)
    from alt fs obtain m' where "m \<le> m'" "rendered_progress x1 = map ?f [Suc m..<Suc m']"
    proof (elim disjE conjE)
      assume "rendered_progress x1 = []"
      then have "m \<le> m" "rendered_progress x1 = map ?f [Suc m..<Suc m]" by simp_all
      then show ?thesis by (rule that)
    next
      assume "rendered_progress x1 = [video_progress (frame_count s + 1) tf]"
      with fs have "m \<le> Suc m" "rendered_progress x1 = map ?f [Suc m..<Suc (Suc m)]"
        by simp_all
      then show ?thesis by (rule that)
    qed
    with x1 Break show ?thesis by auto
  next
    case (Raise e s1)
    from alt fs obtain m' where "m \<le> m'" "rendered_progress x1 = map ?f [Suc m..<Suc m']"
    proof (elim disjE conjE)
      assume "rendered_progress x1 = []"
      then have "m \<le> m" "rendered_progress x1 = map ?f [Suc m..<Suc m]" by simp_all
      then show ?thesis by (rule that)
    next
      assume "rendered_progress x1 = [video_progress (frame_count s + 1) tf]"
      with fs have "m \<le> Suc m" "rendered_progress x1 = map ?f [Suc m..<Suc (Suc m)]"
        by simp_all
      then show ?thesis by (rule that)
    qed
    with x1 Raise show ?thesis by auto
  qed
qed


lemma webcam_key_effects:
  "\<exists>extra. effects (state_of (webcam_key shown ev s)) = effects s @ extra
     \<and> CapRelease \<notin> set extra \<and> OutRelease \<notin> set extra"
  by (cases ev) (simp_all add: webcam_key_def Let_def)

lemma webcam_iteration_effects:
  "\<exists>extra. effects (state_of (webcam_iteration env out ev s)) = effects s @ extra
     \<and> CapRelease \<notin> set extra \<and> OutRelease \<notin> set extra"
proof (cases "cap s")
  case Nil
  then show ?thesis by (simp add: webcam_iteration_def)
next
  case (Cons frame rest)
  show ?thesis
  proof (cases "process_frame env frame")
    case (Inl e)
    with Cons show ?thesis by (simp add: webcam_iteration_def)
  next
    case (Inr pf)
    obtain processed fs where pf: "pf = (processed, fs)" by (cases pf)
    obtain fps a' c' where u: "update_fps (app s) (clk s) = (fps, a', c')"
      by (cases "update_fps (app s) (clk s)")
    show ?thesis
    proof (cases "draw_info env processed (length fs) fps")
      case (Inl e)
      with Cons Inr pf u show ?thesis by (simp add: webcam_iteration_def)
    next
      case shown: (Inr shown)
      let ?s2 = "s\<lparr>cap := rest, effects := effects s @ [CapRead], app := a', clk := c',
                    effects := (effects s @ [CapRead]) @ [Imshow shown]
                       @ (if out then [OutWrite shown] else [])\<rparr>"
      from webcam_key_effects [of shown ev ?s2] obtain x where
        x: "effects (state_of (webcam_key shown ev ?s2)) = effects ?s2 @ x"
           "CapRelease \<notin> set x" "OutRelease \<notin> set x" by blast
      have "webcam_iteration env out ev s = webcam_key shown ev ?s2"
        using Cons Inr pf u shown by (simp add: webcam_iteration_def)
      with x have "effects (state_of (webcam_iteration env out ev s))
            = effects s @ ([CapRead, Imshow shown] @ (if out then [OutWrite shown] else []) @ x)
          \<and> CapRelease \<notin> set ([CapRead, Imshow shown] @ (if out then [OutWrite shown] else []) @ x)
          \<and> OutRelease \<notin> set ([CapRead, Imshow shown] @ (if out then [OutWrite shown] else []) @ x)"
        by simp
      then show ?thesis by blast
    qed
  qed
qed

lemma webcam_loop_effects:
  "\<exists>extra. effects (state_of (webcam_loop env out s evs)) = effects s @ extra
     \<and> CapRelease \<notin> set extra \<and> OutRelease \<notin> set extra"
proof (induction evs arbitrary: s)
  case Nil
  show ?case by simp
next
  case (Cons ev evs)
  let ?r = "webcam_iteration env out ev s"
  from webcam_iteration_effects [of env out ev s] obtain x1 where
    x1: "effects (state_of ?r) = effects s @ x1" "CapRelease \<notin> set x1" "OutRelease \<notin> set x1"
    by blast
  show ?case
  proof (cases ?r)
    case (Continue s1)
    from Cons.IH [of s1] obtain x2 where
      x2: "effects (state_of (webcam_loop env out s1 evs)) = effects s1 @ x2"
        "CapRelease \<notin> set x2" "OutRelease \<notin> set x2" by blast
    with x1 Continue have "effects (state_of (webcam_loop env out s (ev # evs)))
         = effects s @ (x1 @ x2) \<and> CapRelease \<notin> set (x1 @ x2) \<and> OutRelease \<notin> set (x1 @ x2)"
      by simp
    then show ?thesis by blast
  next
    case (Break s1)
    with x1 show ?thesis by auto
  next
    case (Raise e s1)
    with x1 show ?thesis by auto
  qed
qed

lemma released_once:
  assumes "CapRelease \<notin> set xs" "OutRelease \<notin> set xs"
  shows "count_list (effects (finally_release out (s\<lparr>effects := xs\<rparr>))) CapRelease = 1"
    and "count_list (effects (finally_release out (s\<lparr>effects := xs\<rparr>))) OutRelease
           = (if out then 1 else 0)"
  using assms by (simp_all add: finally_release_def)

lemma exit_state_end_of_run:
  assumes "exit_state (end_of_run out r) = Some s"
  shows "s = finally_release out (state_of r)"
  using assms by (cases r) (simp_all add: end_of_run_def)

lemma final_state_end_of_run:
  assumes "final_state (end_of_run out r) = Some s"
  shows "rendered_progress (effects s) = rendered_progress (effects (state_of r))"
  using assms by (cases r) (auto simp add: end_of_run_def finally_release_def rendered_progress_append)

lemmas run_defs = run_video_def run_webcam_def end_of_run_def video_iteration_def video_key_def
  webcam_iteration_def webcam_key_def update_fps_def time_time_def init_app_def stub_cv_def
  stub_clock_def finally_release_def ord_def video_progress_def Let_def

text \<open>
  The theorem at work: a paused pass over a capture with two frames left and one frame
  counted, with no key pressed, leaves all three as they were and the loop running.
\<close>

theorem paused_iteration_reads_nothing_witness:
  "video_iteration stub_cv 3 False (Key (- 1))
      \<lparr>cap = [2, 3], app = fst (init_app stub_clock), clk = snd (init_app stub_clock),
       effects = [CapRead], frame_count = 1, paused = True, total_faces_detected = 1\<rparr>
     = Continue
      \<lparr>cap = [2, 3], app = fst (init_app stub_clock), clk = snd (init_app stub_clock),
       effects = [CapRead], frame_count = 1, paused = True, total_faces_detected = 1\<rparr>
   \<and> cap (state_of (video_iteration stub_cv 3 False (Key (- 1))
      \<lparr>cap = [2, 3], app = fst (init_app stub_clock), clk = snd (init_app stub_clock),
       effects = [CapRead], frame_count = 1, paused = True, total_faces_detected = 1\<rparr>))
     = [2, 3]"
proof -
  let ?s = "\<lparr>cap = [2, 3], app = fst (init_app stub_clock), clk = snd (init_app stub_clock),
       effects = [CapRead], frame_count = 1, paused = True, total_faces_detected = 1::int\<rparr>"
  have p: "paused ?s" by simp
  have "video_iteration stub_cv 3 False (Key (- 1)) ?s = Continue ?s"
    by (simp add: video_iteration_def video_key_def ord_def)
  with paused_iteration_reads_nothing [OF p, of stub_cv 3 False "Key (- 1)"]
  show ?thesis by simp
qed

text \<open>
  Claim C7. A run of \<^verbatim>\<open>run_video\<close> or of \<^verbatim>\<open>run_webcam\<close> that has ended after entering
  its loop, by \<^verbatim>\<open>break\<close> (the quit key, also while paused; the end of the stream; a
  failed read) or by an exception raised in the loop, has released the capture exactly
  once, and has released the video writer exactly once when one was attached and not
  at all when none was.
\<close>

theorem release_exactly_once:
  "(exit_state (run_video env src save_output a c evs) = Some s \<longrightarrow>
      count_list (effects s) CapRelease = 1
      \<and> count_list (effects s) OutRelease = (if save_output then 1 else 0))
   \<and> (exit_state (run_webcam env src save_output a c evs') = Some s' \<longrightarrow>
      count_list (effects s') CapRelease = 1
      \<and> count_list (effects s') OutRelease = (if save_output then 1 else 0))"
proof (intro conjI impI)
  assume ex: "exit_state (run_video env src save_output a c evs) = Some s"
  then obtain frames tf where src: "src = Opened frames tf"
    by (cases src) (simp_all add: run_video_def)
  let ?s0 = "\<lparr>cap = frames, app = a, clk = c, effects = [],
                frame_count = 0, paused = False, total_faces_detected = 0\<rparr>"
  let ?r = "video_loop env tf save_output ?s0 evs"
  from ex src have s: "s = finally_release save_output (state_of ?r)"
    by (simp add: run_video_def exit_state_end_of_run)
  from video_loop_effects [of ?s0 0 env tf save_output evs] obtain x where
    x: "effects (state_of ?r) = x" "CapRelease \<notin> set x" "OutRelease \<notin> set x"
    by auto
  have "state_of ?r = (state_of ?r)\<lparr>effects := x\<rparr>" using x(1) by simp
  with s have s': "s = finally_release save_output ((state_of ?r)\<lparr>effects := x\<rparr>)" by simp
  show "count_list (effects s) CapRelease = 1"
    unfolding s' using x(2,3) by (rule released_once)
  show "count_list (effects s) OutRelease = (if save_output then 1 else 0)"
    unfolding s' using x(2,3) by (rule released_once)
next
  assume ex: "exit_state (run_webcam env src save_output a c evs') = Some s'"
  then obtain frames tf where src: "src = Opened frames tf"
    by (cases src) (simp_all add: run_webcam_def)
  let ?s0 = "\<lparr>cap = frames, app = a, clk = c, effects = [], screenshot_count = 0\<rparr>"
  let ?r = "webcam_loop env save_output ?s0 evs'"
  from ex src have s: "s' = finally_release save_output (state_of ?r)"
    by (simp add: run_webcam_def exit_state_end_of_run)
  from webcam_loop_effects [of env save_output ?s0 evs'] obtain x where
    x: "effects (state_of ?r) = x" "CapRelease \<notin> set x" "OutRelease \<notin> set x"
    by auto
  have "state_of ?r = (state_of ?r)\<lparr>effects := x\<rparr>" using x(1) by simp
  with s have s2: "s' = finally_release save_output ((state_of ?r)\<lparr>effects := x\<rparr>)" by simp
  show "count_list (effects s') CapRelease = 1"
    unfolding s2 using x(2,3) by (rule released_once)
  show "count_list (effects s') OutRelease = (if save_output then 1 else 0)"
    unfolding s2 using x(2,3) by (rule released_once)
qed


text \<open>
  The exits of the loops on concrete runs: the quit key while paused, the end of the
  stream, an exception of the detector, a failed read of the camera, an interrupt.
\<close>

lemma quit_while_paused_run:
  "map_option effects (exit_state (run_video stub_cv (Opened [1, 2, 3] 3) True
         (fst (init_app stub_clock)) (snd (init_app stub_clock)) [Key 112, Key (- 1), Key 113]))
     = Some [CapRead, ProgressBar (1 / 3), Imshow 1, OutWrite 1,
             CapRelease, OutRelease, DestroyAllWindows]"
  by (simp add: run_defs)

lemma end_of_stream_run:
  "map_option effects (exit_state (run_video stub_cv (Opened [1] 1) False
         (fst (init_app stub_clock)) (snd (init_app stub_clock)) [Key (- 1), Key (- 1)]))
     = Some [CapRead, ProgressBar 1, Imshow 1, CapRead, CapRelease, DestroyAllWindows]"
  by (simp add: run_defs)

lemma detector_error_run:
  "map_option effects (exit_state (run_video stub_cv (Opened [0] 1) True
         (fst (init_app stub_clock)) (snd (init_app stub_clock)) [Key (- 1), Key (- 1)]))
     = Some [CapRead, CapRelease, OutRelease, DestroyAllWindows]"
  by (simp add: run_defs)

lemma capture_failure_run:
  "map_option effects (exit_state (run_webcam stub_cv (Opened [] 0) True
         (fst (init_app stub_clock)) (snd (init_app stub_clock)) [Key (- 1)]))
     = Some [CapRead, CapRelease, OutRelease, DestroyAllWindows]"
  by (simp add: run_defs)

lemma interrupt_run:
  "map_option effects (exit_state (run_webcam stub_cv (Opened [1, 2] 0) False
         (fst (init_app stub_clock)) (snd (init_app stub_clock))
         [Key 115, Interrupt KeyboardInterrupt]))
     = Some [CapRead, Imshow 1, Imwrite 0 1, CapRead, Imshow 2, CapRelease, DestroyAllWindows]"
  by (simp add: run_defs)

text \<open>
  The theorem at work on the first and the fourth of these runs: the video paused and
  then quit, the camera whose first read fails, both with a writer attached.
\<close>

theorem release_exactly_once_witness:
  "map_option effects (exit_state (run_video stub_cv (Opened [1, 2, 3] 3) True
         (fst (init_app stub_clock)) (snd (init_app stub_clock)) [Key 112, Key (- 1), Key 113]))
     = Some [CapRead, ProgressBar (1 / 3), Imshow 1, OutWrite 1,
             CapRelease, OutRelease, DestroyAllWindows]
   \<and> count_list [CapRead, ProgressBar (1 / 3), Imshow (1::nat), OutWrite 1,
             CapRelease, OutRelease, DestroyAllWindows] CapRelease = 1
   \<and> count_list [CapRead, ProgressBar (1 / 3), Imshow (1::nat), OutWrite 1,
             CapRelease, OutRelease, DestroyAllWindows] OutRelease = 1
   \<and> map_option effects (exit_state (run_webcam stub_cv (Opened [] 0) True
         (fst (init_app stub_clock)) (snd (init_app stub_clock)) [Key (- 1)]))
     = Some [CapRead, CapRelease, OutRelease, DestroyAllWindows]
   \<and> count_list [CapRead :: nat effect, CapRelease, OutRelease, DestroyAllWindows] CapRelease = 1"
proof -
  let ?v = "run_video stub_cv (Opened [1, 2, 3] 3) True
         (fst (init_app stub_clock)) (snd (init_app stub_clock)) [Key 112, Key (- 1), Key 113]"
  let ?w = "run_webcam stub_cv (Opened [] 0) True
         (fst (init_app stub_clock)) (snd (init_app stub_clock)) [Key (- 1)]"
  from quit_while_paused_run obtain s where s: "exit_state ?v = Some s"
    "effects s = [CapRead, ProgressBar (1 / 3), Imshow 1, OutWrite 1,
             CapRelease, OutRelease, DestroyAllWindows]"
    by auto
  from capture_failure_run obtain s' where s': "exit_state ?w = Some s'"
    "effects s' = [CapRead, CapRelease, OutRelease, DestroyAllWindows]"
    by auto
  from release_exactly_once [of stub_cv "Opened [1, 2, 3] 3" True "fst (init_app stub_clock)"
      "snd (init_app stub_clock)" "[Key 112, Key (- 1), Key 113]" s] s
  have v: "count_list (effects s) CapRelease = 1" "count_list (effects s) OutRelease = 1"
    by simp_all
  from release_exactly_once [of stub_cv "Opened [] 0" True "fst (init_app stub_clock)"
      "snd (init_app stub_clock)" _ _ "[Key (- 1)]" s'] s'
  have w: "count_list (effects s') CapRelease = 1"
    by simp
  from v w s s' quit_while_paused_run capture_failure_run show ?thesis
    by (simp only: simp_thms)
qed

text \<open>
  Claim C6, as the code has it. In a video run the fraction handed to the progress bar
  for the \<open>k\<close>-th processed frame is \<open>k / total_frames\<close> when the reported frame count
  is positive and 0 otherwise. The fractions are never negative, they never decrease
  from one frame to the next, a fraction is 1 exactly when the frame index equals the
  reported frame count, and it is at most 1 as long as the frame index does not exceed
  the reported frame count. Nothing clamps it beyond that.
\<close>

theorem video_progress_rendered:
  assumes "final_state (run_video env (Opened frames total_frames) save_output a c evs) = Some s"
    and "ps = rendered_progress (effects s)"
  shows "(\<exists>m. ps = map (\<lambda>k. video_progress (int k) total_frames) [1..<Suc m])
       \<and> sorted ps
       \<and> (\<forall>k < length ps.
             0 \<le> ps ! k
             \<and> (int (Suc k) \<le> total_frames \<longrightarrow> ps ! k \<le> 1)
             \<and> (ps ! k = 1 \<longleftrightarrow> int (Suc k) = total_frames))"
proof -
  let ?s0 = "\<lparr>cap = frames, app = a, clk = c, effects = [],
                frame_count = 0, paused = False, total_faces_detected = 0\<rparr>"
  let ?r = "video_loop env total_frames save_output ?s0 evs"
  let ?f = "\<lambda>k. video_progress (int k) total_frames"
  from assms have "ps = rendered_progress (effects (state_of ?r))"
    by (simp add: run_video_def final_state_end_of_run)
  moreover from video_loop_effects [of ?s0 0 env total_frames save_output evs]
  obtain m where "rendered_progress (effects (state_of ?r)) = map ?f [Suc 0..<Suc m]"
    by auto
  ultimately have ps: "ps = map ?f [1..<Suc m]" by simp
  then have ex: "\<exists>m. ps = map ?f [1..<Suc m]" ..
  have nth: "ps ! k = ?f (Suc k)" if "k < length ps" for k
    using that unfolding ps by (simp del: upt_Suc)
  have srt: "sorted ps"
  proof (rule sorted_iff_nth_mono [THEN iffD2], intro allI impI)
    fix i j assume "i \<le> j" "j < length ps"
    then show "ps ! i \<le> ps ! j"
      by (simp add: nth video_progress_mono)
  qed
  have each: "\<forall>k < length ps. 0 \<le> ps ! k
           \<and> (int (Suc k) \<le> total_frames \<longrightarrow> ps ! k \<le> 1)
           \<and> (ps ! k = 1 \<longleftrightarrow> int (Suc k) = total_frames)"
  proof (intro allI impI)
    fix k assume k: "k < length ps"
    have "0 \<le> ?f (Suc k)" by (rule video_progress_nonneg) simp
    moreover have "int (Suc k) \<le> total_frames \<longrightarrow> ?f (Suc k) \<le> 1"
      by (simp add: video_progress_le_one)
    moreover have "?f (Suc k) = 1 \<longleftrightarrow> int (Suc k) = total_frames"
      by (rule video_progress_one) simp
    ultimately show "0 \<le> ps ! k
           \<and> (int (Suc k) \<le> total_frames \<longrightarrow> ps ! k \<le> 1)
           \<and> (ps ! k = 1 \<longleftrightarrow> int (Suc k) = total_frames)"
      by (simp only: nth [OF k])
  qed
  from ex srt each show ?thesis by blast
qed

text \<open>
  The theorem at work: a file of three frames that reports two, played to the quit
  key.
\<close>

theorem video_progress_rendered_witness:
  "map_option (rendered_progress \<circ> effects)
       (final_state (run_video stub_cv (Opened [1, 2, 3] 2) True
         (fst (init_app stub_clock)) (snd (init_app stub_clock))
         [Key (- 1), Key (- 1), Key 113]))
     = Some [1 / 2, 1, 3 / 2]
   \<and> sorted [1 / 2, 1, 3 / 2 :: real]"
proof -
  let ?v = "run_video stub_cv (Opened [1, 2, 3] 2) True
         (fst (init_app stub_clock)) (snd (init_app stub_clock))
         [Key (- 1), Key (- 1), Key 113]"
  have run: "map_option (rendered_progress \<circ> effects) (final_state ?v) = Some [1 / 2, 1, 3 / 2]"
    by (simp add: run_defs)
  then obtain s where s: "final_state ?v = Some s"
    "rendered_progress (effects s) = [1 / 2, 1, 3 / 2]"
    by auto
  from video_progress_rendered [OF s(1) refl] s(2)
  have "sorted [1 / 2, 1, 3 / 2 :: real]" by simp
  with run show ?thesis by (simp only: simp_thms)
qed

text \<open>
  Claim C6 as stated fails: the fraction is not clamped. A file of two frames that
  reports one frame is shown with the fractions 1 and 2.
\<close>

theorem video_progress_exceeds_one:
  "map_option (rendered_progress \<circ> effects)
       (final_state (run_video stub_cv (Opened [1, 2] 1) False
         (fst (init_app stub_clock)) (snd (init_app stub_clock)) [Key (- 1), Key (- 1)]))
     = Some [1, 2]
   \<and> video_progress 2 1 = 2"
  by (simp add: run_defs)

section \<open>Properties of the web application\<close>

subsection \<open>The frame payload\<close>

lemma split_comma_not_Nil: "split_comma s \<noteq> []"
  by (induction s) (auto split: list.splits)

lemma split_comma_no_comma: "CHR '','' \<notin> set s \<Longrightarrow> split_comma s = [s]"
  by (induction s) auto

lemma hd_split_comma: "hd (split_comma s) = takeWhile (\<lambda>c. c \<noteq> CHR '','') s"
  by (induction s) (auto split: list.splits simp: split_comma_not_Nil)

lemma split_comma_comma:
  "CHR '','' \<in> set s \<Longrightarrow>
     split_comma s = takeWhile (\<lambda>c. c \<noteq> CHR '','') s # split_comma (after_first_comma s)"
proof (induction s)
  case Nil
  then show ?case by simp
next
  case (Cons c cs)
  show ?case
  proof (cases "c = CHR '',''")
    case True
    then show ?thesis by (simp add: after_first_comma_def)
  next
    case False
    with Cons.prems have "CHR '','' \<in> set cs" by simp
    from Cons.IH [OF this] False show ?thesis
      by (simp add: after_first_comma_def)
  qed
qed

lemma frame_payload_eq:
  "frame_payload s =
     Inr (if CHR '','' \<in> set s
          then takeWhile (\<lambda>c. c \<noteq> CHR '','') (after_first_comma s) else s)"
proof (cases "CHR '','' \<in> set s")
  case True
  obtain w ws where w: "split_comma (after_first_comma s) = w # ws"
    using split_comma_not_Nil [of "after_first_comma s"] by (cases "split_comma (after_first_comma s)") auto
  then have "w = takeWhile (\<lambda>c. c \<noteq> CHR '','') (after_first_comma s)"
    using hd_split_comma [of "after_first_comma s"] by simp
  with True w show ?thesis
    by (simp add: frame_payload_def split_comma_comma)
next
  case False
  then show ?thesis by (simp add: frame_payload_def)
qed

subsection \<open>One message of a realtime session\<close>

lemma ws_message_frame:
  assumes "apply_scale_factor env data sess = Inr s1"
    and "apply_min_neighbors env data s1 = Inr s2"
    and "data ''frame'' = Some fd"
  shows "ws_message env data sess w =
     (case frame_text fd of
        Inl e \<Rightarrow> (Some e, s2, w, [])
      | Inr txt \<Rightarrow>
          (case decode_image env txt of
             Inl e \<Rightarrow> (Some e, s2, w, [])
           | Inr None \<Rightarrow> (None, s2, w, [])
           | Inr (Some img) \<Rightarrow>
               (case timed_detect env (scale_factor s2) (min_neighbors s2) img w of
                  (Inl e, w', cs) \<Rightarrow> (Some e, s2, w', cs)
                | (Inr res, w', cs) \<Rightarrow> (None, s2, w', cs @ [SendJson res]))))"
  using assms by (simp add: ws_message_def)

lemma ws_message_no_frame:
  assumes "apply_scale_factor env data sess = Inr s1"
    and "apply_min_neighbors env data s1 = Inr s2"
    and "data ''frame'' = None"
  shows "ws_message env data sess w = (None, s2, w, [])"
  using assms by (simp add: ws_message_def)

lemma timed_detect_success:
  assumes "set_detection_params env (detector w) sf mn = Inr d"
    and "detect_faces env d img = Inr fs"
  shows "timed_detect env sf mn img w =
     (Inr \<lparr>faces_count = length fs, faces = fs,
           detection_time_ms = round2 env ((readings (wclk w) (Suc (reads (wclk w)))
               - readings (wclk w) (reads (wclk w))) * 1000)\<rparr>,
      \<lparr>detector = d, wclk = (wclk w)\<lparr>reads := Suc (Suc (reads (wclk w)))\<rparr>\<rparr>,
      [SetDetectionParams sf mn, DetectFaces img])"
  using assms by (simp add: timed_detect_def time_time_def Let_def)

lemma timed_detect_calls:
  "snd (snd (timed_detect env sf mn img w)) =
     SetDetectionParams sf mn #
       (case set_detection_params env (detector w) sf mn of
          Inl e \<Rightarrow> [] | Inr d \<Rightarrow> [DetectFaces img])"
  by (simp add: timed_detect_def time_time_def Let_def split: sum.splits prod.splits)

lemma timed_detect_faces:
  "map_sum id faces (fst (timed_detect env sf mn img w)) =
     (case set_detection_params env (detector w) sf mn of
        Inl e \<Rightarrow> Inl e
      | Inr d \<Rightarrow> detect_faces env d img)"
  by (simp add: timed_detect_def time_time_def Let_def split: sum.splits prod.splits)

lemmas web_defs = ws_message_def apply_scale_factor_def apply_min_neighbors_def py_float_def
  py_int_def frame_text_def frame_payload_def decode_image_def timed_detect_def time_time_def
  stub_web_def stub_world_def stub_clock_def config_detector_def session_defaults_def
  spec_set_detection_params_def validate_def Let_def

text \<open>
  Claim C2, as the code has it. No response is sent for a message whose frame payload
  is malformed. When the payload decodes to bytes that are no image, the loop goes on
  with the parameters the message set, the detector and the clock untouched, and the
  messages that follow are processed as if that one had carried its parameters only.
  When the payload is no valid base64, or another step of the decoding raises, the
  exception leaves the loop and the session ends.
\<close>

theorem malformed_frame_gets_no_response:
  assumes "apply_scale_factor env data sess = Inr s1"
    and "apply_min_neighbors env data s1 = Inr s2"
    and "data ''frame'' = Some fd"
  shows "(\<forall>b64. frame_text fd = Inr b64 \<and> decode_image env b64 = Inr None \<longrightarrow>
            ws_message env data sess w = (None, s2, w, [])
            \<and> ws_loop env (Message data # evs) sess w = ws_loop env evs s2 w)
       \<and> (\<forall>e. frame_text fd = Inl e
               \<or> (\<exists>b64. frame_text fd = Inr b64 \<and> decode_image env b64 = Inl e) \<longrightarrow>
            ws_message env data sess w = (Some e, s2, w, [])
            \<and> ws_loop env (Message data # evs) sess w = (Ended e, s2, w, []))"
proof (intro conjI allI impI)
  fix b64
  assume "frame_text fd = Inr b64 \<and> decode_image env b64 = Inr None"
  with assms show m: "ws_message env data sess w = (None, s2, w, [])"
    by (simp add: ws_message_frame)
  then show "ws_loop env (Message data # evs) sess w = ws_loop env evs s2 w"
    by simp
next
  fix e
  assume "frame_text fd = Inl e
    \<or> (\<exists>b64. frame_text fd = Inr b64 \<and> decode_image env b64 = Inl e)"
  with assms show m: "ws_message env data sess w = (Some e, s2, w, [])"
    by (auto simp add: ws_message_frame)
  then show "ws_loop env (Message data # evs) sess w = (Ended e, s2, w, [])"
    by simp
qed

text \<open>
  The theorem at work: three zero bytes are no image, so the first message is passed
  over and the second one is answered; the empty payload makes \<open>imdecode\<close> raise, so
  the session ends before the second message.
\<close>

theorem malformed_frame_gets_no_response_witness:
  "ws_loop stub_web
       [Message [''frame'' \<mapsto> JStr ''AAAA''], Message [''frame'' \<mapsto> JStr ''aW1n'']]
       session_defaults stub_world
     = (Open, session_defaults, stub_world\<lparr>wclk := stub_clock\<lparr>reads := 2\<rparr>\<rparr>,
        [SetDetectionParams (11 / 10) 5, DetectFaces 1,
         SendJson \<lparr>faces_count = 1, faces = [(30, 30, 40, 40)], detection_time_ms = 250\<rparr>])
   \<and> ws_loop stub_web
       [Message [''frame'' \<mapsto> JStr []], Message [''frame'' \<mapsto> JStr ''aW1n'']]
       session_defaults stub_world
     = (Ended CvError, session_defaults, stub_world, [])"
proof -
  let ?ok = "Message [''frame'' \<mapsto> JStr ''aW1n'']"
  let ?d1 = "[''frame'' \<mapsto> JStr ''AAAA'']"
  let ?d2 = "[''frame'' \<mapsto> JStr []]"
  have a1: "apply_scale_factor stub_web ?d1 session_defaults = Inr session_defaults"
    and a2: "apply_min_neighbors stub_web ?d1 session_defaults = Inr session_defaults"
    and f1: "?d1 ''frame'' = Some (JStr ''AAAA'')"
    and b1: "apply_scale_factor stub_web ?d2 session_defaults = Inr session_defaults"
    and b2: "apply_min_neighbors stub_web ?d2 session_defaults = Inr session_defaults"
    and f2: "?d2 ''frame'' = Some (JStr [])"
    by (simp_all add: apply_scale_factor_def apply_min_neighbors_def)
  have n1: "frame_text (JStr ''AAAA'') = Inr ''AAAA'' \<and> decode_image stub_web ''AAAA'' = Inr None"
    and n2: "frame_text (JStr []) = Inr []" "decode_image stub_web [] = Inl CvError"
    by (simp_all add: frame_text_def frame_payload_def decode_image_def stub_web_def)
  from malformed_frame_gets_no_response [OF a1 a2 f1, of stub_world "[?ok]"] n1
  have "ws_loop stub_web [Message ?d1, ?ok] session_defaults stub_world
      = ws_loop stub_web [?ok] session_defaults stub_world"
    by blast
  moreover from malformed_frame_gets_no_response [OF b1 b2 f2, of stub_world "[?ok]"] n2
  have "ws_loop stub_web [Message ?d2, ?ok] session_defaults stub_world
      = (Ended CvError, session_defaults, stub_world, [])"
    by blast
  moreover have "ws_loop stub_web [?ok] session_defaults stub_world
      = (Open, session_defaults, stub_world\<lparr>wclk := stub_clock\<lparr>reads := 2\<rparr>\<rparr>,
        [SetDetectionParams (11 / 10) 5, DetectFaces 1,
         SendJson \<lparr>faces_count = 1, faces = [(30, 30, 40, 40)], detection_time_ms = 250\<rparr>])"
    by (simp add: web_defs)
  ultimately show ?thesis by (simp only: simp_thms)
qed

text \<open>
  Claim C2 as stated fails. The payload \<open>not-base64-or-not-an-image\<close> is answered with
  nothing and ends the session, so that the valid message after it is never processed;
  a payload that decodes to bytes which are no image is answered with nothing either.
\<close>

theorem malformed_frame_ends_session:
  "ws_loop stub_web
       [Message [''frame'' \<mapsto> JStr ''not-base64-or-not-an-image''],
        Message [''frame'' \<mapsto> JStr ''aW1n'']]
       session_defaults stub_world
     = (Ended BinasciiError, session_defaults, stub_world, [])
   \<and> ws_message stub_web [''frame'' \<mapsto> JStr ''AAAA''] session_defaults stub_world
     = (None, session_defaults, stub_world, [])"
  by (simp add: web_defs)

text \<open>
  What a message with convertible parameter fields leaves in the two locals of the
  session: the value of a key that is present, the value held before otherwise.
\<close>

lemma session_after_message:
  assumes "case data ''scale_factor'' of None \<Rightarrow> r = scale_factor sess
             | Some v \<Rightarrow> py_float env v = Inr r"
    and "case data ''min_neighbors'' of None \<Rightarrow> n = min_neighbors sess
             | Some u \<Rightarrow> py_int env u = Inr n"
  shows "apply_scale_factor env data sess = Inr (sess\<lparr>scale_factor := r\<rparr>)"
    and "apply_min_neighbors env data (sess\<lparr>scale_factor := r\<rparr>)
           = Inr \<lparr>scale_factor = r, min_neighbors = n\<rparr>"
  using assms
  by (simp_all add: apply_scale_factor_def apply_min_neighbors_def split: option.splits)

text \<open>
  Claim C4. A message with both parameter fields and a frame first stores its scale
  factor \<open>r\<close> and its neighbour threshold \<open>n\<close> in the session and then detects with
  exactly these two values: the first call on the detector is
  \<^verbatim>\<open>set_detection_params\<close> with \<open>r\<close> and \<open>n\<close>, the detection follows it, and the faces
  reported are those the detector finds after that update. A later message \<open>data'\<close> with
  a frame detects with the value of each key it carries and, for a key it omits, with
  the value the session holds from the earlier message.
\<close>

theorem update_then_detect:
  assumes "data ''scale_factor'' = Some v" and "py_float env v = Inr r"
    and "data ''min_neighbors'' = Some u" and "py_int env u = Inr n"
    and "data ''frame'' = Some fd" and "frame_text fd = Inr b64"
    and "decode_image env b64 = Inr (Some img)"
    and "case data' ''scale_factor'' of None \<Rightarrow> r' = r
           | Some v' \<Rightarrow> py_float env v' = Inr r'"
    and "case data' ''min_neighbors'' of None \<Rightarrow> n' = n
           | Some u' \<Rightarrow> py_int env u' = Inr n'"
    and "data' ''frame'' = Some fd'" and "frame_text fd' = Inr b64'"
    and "decode_image env b64' = Inr (Some img')"
  shows "ws_message env data sess w =
           (case timed_detect env r n img w of
              (Inl e, w1, cs) \<Rightarrow> (Some e, \<lparr>scale_factor = r, min_neighbors = n\<rparr>, w1, cs)
            | (Inr res, w1, cs) \<Rightarrow>
                (None, \<lparr>scale_factor = r, min_neighbors = n\<rparr>, w1, cs @ [SendJson res]))
       \<and> ws_message env data' \<lparr>scale_factor = r, min_neighbors = n\<rparr> w' =
           (case timed_detect env r' n' img' w' of
              (Inl e, w1, cs) \<Rightarrow> (Some e, \<lparr>scale_factor = r', min_neighbors = n'\<rparr>, w1, cs)
            | (Inr res, w1, cs) \<Rightarrow>
                (None, \<lparr>scale_factor = r', min_neighbors = n'\<rparr>, w1, cs @ [SendJson res]))
       \<and> snd (snd (timed_detect env r n img w)) =
           SetDetectionParams r n #
             (case set_detection_params env (detector w) r n of
                Inl e \<Rightarrow> [] | Inr d \<Rightarrow> [DetectFaces img])
       \<and> map_sum id faces (fst (timed_detect env r n img w)) =
           (case set_detection_params env (detector w) r n of
              Inl e \<Rightarrow> Inl e
            | Inr d \<Rightarrow> detect_faces env d img)"
proof -
  let ?s = "\<lparr>scale_factor = r, min_neighbors = n\<rparr>"
  let ?s' = "\<lparr>scale_factor = r', min_neighbors = n'\<rparr>"
  have h1: "case data ''scale_factor'' of None \<Rightarrow> r = scale_factor sess
             | Some v \<Rightarrow> py_float env v = Inr r"
    and h2: "case data ''min_neighbors'' of None \<Rightarrow> n = min_neighbors sess
             | Some u \<Rightarrow> py_int env u = Inr n"
    using assms(1-4) by simp_all
  have k1: "case data' ''scale_factor'' of None \<Rightarrow> r' = scale_factor ?s
             | Some v \<Rightarrow> py_float env v = Inr r'"
    using assms(8) by (simp split: option.splits)
  have k2: "case data' ''min_neighbors'' of None \<Rightarrow> n' = min_neighbors ?s
             | Some u \<Rightarrow> py_int env u = Inr n'"
    using assms(9) by (simp split: option.splits)
  note a = session_after_message [OF h1 h2]
  note b = session_after_message [OF k1 k2]
  have m1: "ws_message env data sess w =
           (case timed_detect env r n img w of
              (Inl e, w1, cs) \<Rightarrow> (Some e, ?s, w1, cs)
            | (Inr res, w1, cs) \<Rightarrow> (None, ?s, w1, cs @ [SendJson res]))"
    using ws_message_frame [OF a assms(5), of w] assms(6,7) by simp
  have m2: "ws_message env data' ?s w' =
           (case timed_detect env r' n' img' w' of
              (Inl e, w1, cs) \<Rightarrow> (Some e, ?s', w1, cs)
            | (Inr res, w1, cs) \<Rightarrow> (None, ?s', w1, cs @ [SendJson res]))"
    using ws_message_frame [OF b assms(10), of w'] assms(11,12) by simp
  from m1 m2 timed_detect_calls [of env r n img w] timed_detect_faces [of env r n img w]
  show ?thesis by (simp only: simp_thms)
qed

text \<open>
  The theorem at work: the first message sets the scale factor 1.2 and the neighbour
  threshold 3 and carries a frame as a data URI, the second carries a frame only. Both
  detections are made after the detector was set to 1.2 and 3, not to the defaults 1.1
  and 5.
\<close>

theorem update_then_detect_witness:
  "ws_loop stub_web
       [Message [''scale_factor'' \<mapsto> JFloat (12 / 10), ''min_neighbors'' \<mapsto> JInt 3,
                 ''frame'' \<mapsto> JStr ''data:image/jpeg;base64,aW1n''],
        Message [''frame'' \<mapsto> JStr ''aW1n'']]
       session_defaults stub_world
     = (Open, \<lparr>scale_factor = 12 / 10, min_neighbors = 3\<rparr>,
        \<lparr>detector = config_detector\<lparr>det_scale_factor := 12 / 10, det_min_neighbors := 3\<rparr>,
         wclk = stub_clock\<lparr>reads := 4\<rparr>\<rparr>,
        [SetDetectionParams (12 / 10) 3, DetectFaces 1,
         SendJson \<lparr>faces_count = 1, faces = [(30, 30, 40, 40)], detection_time_ms = 250\<rparr>,
         SetDetectionParams (12 / 10) 3, DetectFaces 1,
         SendJson \<lparr>faces_count = 1, faces = [(30, 30, 40, 40)], detection_time_ms = 250\<rparr>])
   \<and> ws_message stub_web
       [''scale_factor'' \<mapsto> JFloat (12 / 10), ''min_neighbors'' \<mapsto> JInt 3,
        ''frame'' \<mapsto> JStr ''data:image/jpeg;base64,aW1n'']
       session_defaults stub_world
     = (None, \<lparr>scale_factor = 12 / 10, min_neighbors = 3\<rparr>,
        \<lparr>detector = config_detector\<lparr>det_scale_factor := 12 / 10, det_min_neighbors := 3\<rparr>,
         wclk = stub_clock\<lparr>reads := 2\<rparr>\<rparr>,
        [SetDetectionParams (12 / 10) 3, DetectFaces 1,
         SendJson \<lparr>faces_count = 1, faces = [(30, 30, 40, 40)], detection_time_ms = 250\<rparr>])"
proof -
  let ?d = "[''scale_factor'' \<mapsto> JFloat (12 / 10), ''min_neighbors'' \<mapsto> JInt 3,
             ''frame'' \<mapsto> JStr ''data:image/jpeg;base64,aW1n'']"
  let ?d' = "[''frame'' \<mapsto> JStr ''aW1n'']"
  let ?s = "\<lparr>scale_factor = 12 / 10, min_neighbors = 3\<rparr>"
  have h: "?d ''scale_factor'' = Some (JFloat (12 / 10))"
      "py_float stub_web (JFloat (12 / 10)) = Inr (12 / 10)"
      "?d ''min_neighbors'' = Some (JInt 3)"
      "py_int stub_web (JInt 3) = Inr 3"
      "?d ''frame'' = Some (JStr ''data:image/jpeg;base64,aW1n'')"
      "frame_text (JStr ''data:image/jpeg;base64,aW1n'') = Inr ''aW1n''"
      "decode_image stub_web ''aW1n'' = Inr (Some 1)"
    by (simp_all add: py_float_def py_int_def frame_text_def frame_payload_def
          decode_image_def stub_web_def)
  have k: "case ?d' ''scale_factor'' of None \<Rightarrow> 12 / 10 = (12 / 10 :: real)
             | Some v' \<Rightarrow> py_float stub_web v' = Inr (12 / 10)"
      "case ?d' ''min_neighbors'' of None \<Rightarrow> 3 = (3 :: int)
             | Some u' \<Rightarrow> py_int stub_web u' = Inr 3"
      "?d' ''frame'' = Some (JStr ''aW1n'')"
      "frame_text (JStr ''aW1n'') = Inr ''aW1n''"
    by (simp_all add: frame_text_def frame_payload_def)
  have td: "timed_detect stub_web (12 / 10) 3 1 stub_world
      = (Inr \<lparr>faces_count = 1, faces = [(30, 30, 40, 40)], detection_time_ms = 250\<rparr>,
         \<lparr>detector = config_detector\<lparr>det_scale_factor := 12 / 10, det_min_neighbors := 3\<rparr>,
          wclk = stub_clock\<lparr>reads := 2\<rparr>\<rparr>,
         [SetDetectionParams (12 / 10) 3, DetectFaces 1])"
    by (simp add: web_defs)
  have td': "timed_detect stub_web (12 / 10) 3 1
        \<lparr>detector = config_detector\<lparr>det_scale_factor := 12 / 10, det_min_neighbors := 3\<rparr>,
          wclk = stub_clock\<lparr>reads := 2\<rparr>\<rparr>
      = (Inr \<lparr>faces_count = 1, faces = [(30, 30, 40, 40)], detection_time_ms = 250\<rparr>,
         \<lparr>detector = config_detector\<lparr>det_scale_factor := 12 / 10, det_min_neighbors := 3\<rparr>,
          wclk = stub_clock\<lparr>reads := 4\<rparr>\<rparr>,
         [SetDetectionParams (12 / 10) 3, DetectFaces 1])"
    by (simp add: web_defs)
  note inst = update_then_detect [OF h k h(7), where sess = session_defaults and w = stub_world
      and w' = "\<lparr>detector = config_detector\<lparr>det_scale_factor := 12 / 10, det_min_neighbors := 3\<rparr>,
          wclk = stub_clock\<lparr>reads := 2\<rparr>\<rparr>"]
  let ?w1 = "\<lparr>detector = config_detector\<lparr>det_scale_factor := 12 / 10, det_min_neighbors := 3\<rparr>,
          wclk = stub_clock\<lparr>reads := 2\<rparr>\<rparr>"
  from inst have m1: "ws_message stub_web ?d session_defaults stub_world =
           (case timed_detect stub_web (12 / 10) 3 1 stub_world of
              (Inl e, w1, cs) \<Rightarrow> (Some e, ?s, w1, cs)
            | (Inr res, w1, cs) \<Rightarrow> (None, ?s, w1, cs @ [SendJson res]))"
    and m2: "ws_message stub_web ?d' ?s ?w1 =
           (case timed_detect stub_web (12 / 10) 3 1 ?w1 of
              (Inl e, w1, cs) \<Rightarrow> (Some e, ?s, w1, cs)
            | (Inr res, w1, cs) \<Rightarrow> (None, ?s, w1, cs @ [SendJson res]))"
    by blast+
  have r1: "ws_message stub_web ?d session_defaults stub_world
     = (None, ?s, ?w1,
        [SetDetectionParams (12 / 10) 3, DetectFaces 1,
         SendJson \<lparr>faces_count = 1, faces = [(30, 30, 40, 40)], detection_time_ms = 250\<rparr>])"
    unfolding m1 td by (simp only: sum.case prod.case append.simps)
  have r2: "ws_message stub_web ?d' ?s ?w1
     = (None, ?s,
        \<lparr>detector = config_detector\<lparr>det_scale_factor := 12 / 10, det_min_neighbors := 3\<rparr>,
         wclk = stub_clock\<lparr>reads := 4\<rparr>\<rparr>,
        [SetDetectionParams (12 / 10) 3, DetectFaces 1,
         SendJson \<lparr>faces_count = 1, faces = [(30, 30, 40, 40)], detection_time_ms = 250\<rparr>])"
    unfolding m2 td' by (simp only: sum.case prod.case append.simps)
  have loop: "ws_loop stub_web [Message ?d, Message ?d'] session_defaults stub_world
     = (Open, ?s,
        \<lparr>detector = config_detector\<lparr>det_scale_factor := 12 / 10, det_min_neighbors := 3\<rparr>,
         wclk = stub_clock\<lparr>reads := 4\<rparr>\<rparr>,
        [SetDetectionParams (12 / 10) 3, DetectFaces 1,
         SendJson \<lparr>faces_count = 1, faces = [(30, 30, 40, 40)], detection_time_ms = 250\<rparr>,
         SetDetectionParams (12 / 10) 3, DetectFaces 1,
         SendJson \<lparr>faces_count = 1, faces = [(30, 30, 40, 40)], detection_time_ms = 250\<rparr>])"
    by (simp only: ws_loop.simps r1 r2 prod.case option.case append.simps)
  from loop r1 show ?thesis by (simp only: simp_thms)
qed

subsection \<open>The payload the handlers decode\<close>

text \<open>
  Claim C9, as the code has it. Let \<open>p\<close> be the payload \<open>s\<close> itself when it has no comma,
  and otherwise the text between its first comma and its second one (or its end):
  \<^verbatim>\<open>split(",")[1]\<close>. Then \<open>p\<close> is what both handlers decode: \<^verbatim>\<open>detect_base64\<close> on the
  payload \<open>s\<close> and \<^verbatim>\<open>websocket_detect\<close> on a message whose frame is \<open>s\<close> hand \<open>p\<close> to
  \<^verbatim>\<open>b64decode\<close> and its bytes to \<^verbatim>\<open>imdecode\<close>, and go on with the outcome of that. For a
  payload with a comma, \<open>p\<close> is all that follows the first comma exactly when no
  further comma follows, as in a data URI with a base64 body.
\<close>

theorem handlers_decode_second_piece:
  assumes "apply_scale_factor env data sess = Inr s1"
    and "apply_min_neighbors env data s1 = Inr s2"
    and "data ''frame'' = Some (JStr s)"
    and "p = (if CHR '','' \<in> set s
              then takeWhile (\<lambda>c. c \<noteq> CHR '','') (after_first_comma s) else s)"
  shows "frame_payload s = Inr p
       \<and> frame_text (JStr s) = Inr p
       \<and> decode_image env p =
           (case b64decode env p of Inl e \<Rightarrow> Inl e | Inr bs \<Rightarrow> imdecode env bs)
       \<and> detect_base64 env s sf mn w =
           (case decode_image env p of
              Inl e \<Rightarrow> (Status500 e, w, [])
            | Inr None \<Rightarrow> (Status400, w, [])
            | Inr (Some img) \<Rightarrow>
                (case timed_detect env sf mn img w of
                   (Inl e, w', cs) \<Rightarrow> (Status500 e, w', cs)
                 | (Inr res, w', cs) \<Rightarrow> (Success res, w', cs)))
       \<and> ws_message env data sess w' =
           (case decode_image env p of
              Inl e \<Rightarrow> (Some e, s2, w', [])
            | Inr None \<Rightarrow> (None, s2, w', [])
            | Inr (Some img) \<Rightarrow>
                (case timed_detect env (scale_factor s2) (min_neighbors s2) img w' of
                   (Inl e, w1, cs) \<Rightarrow> (Some e, s2, w1, cs)
                 | (Inr res, w1, cs) \<Rightarrow> (None, s2, w1, cs @ [SendJson res])))
       \<and> (CHR '','' \<in> set s \<longrightarrow>
            (p = after_first_comma s) = (CHR '','' \<notin> set (after_first_comma s)))"
proof -
  have fp: "frame_payload s = Inr p" using assms(4) by (simp add: frame_payload_eq)
  then have ft: "frame_text (JStr s) = Inr p" by (simp add: frame_text_def)
  have di: "decode_image env p =
           (case b64decode env p of Inl e \<Rightarrow> Inl e | Inr bs \<Rightarrow> imdecode env bs)"
    by (simp add: decode_image_def)
  have http: "detect_base64 env s sf mn w =
           (case decode_image env p of
              Inl e \<Rightarrow> (Status500 e, w, [])
            | Inr None \<Rightarrow> (Status400, w, [])
            | Inr (Some img) \<Rightarrow>
                (case timed_detect env sf mn img w of
                   (Inl e, w', cs) \<Rightarrow> (Status500 e, w', cs)
                 | (Inr res, w', cs) \<Rightarrow> (Success res, w', cs)))"
    using fp by (simp add: detect_base64_def)
  have ws: "ws_message env data sess w' =
           (case decode_image env p of
              Inl e \<Rightarrow> (Some e, s2, w', [])
            | Inr None \<Rightarrow> (None, s2, w', [])
            | Inr (Some img) \<Rightarrow>
                (case timed_detect env (scale_factor s2) (min_neighbors s2) img w' of
                   (Inl e, w1, cs) \<Rightarrow> (Some e, s2, w1, cs)
                 | (Inr res, w1, cs) \<Rightarrow> (None, s2, w1, cs @ [SendJson res])))"
    using ws_message_frame [OF assms(1,2,3), of w'] ft by simp
  have iff: "CHR '','' \<in> set s \<longrightarrow>
            (p = after_first_comma s) = (CHR '','' \<notin> set (after_first_comma s))"
    using assms(4) by (auto simp add: takeWhile_eq_all_conv)
  from fp ft di http ws iff show ?thesis by (simp only: simp_thms)
qed

text \<open>
  The theorem at work: both handlers detect on the picture behind \<open>aW1n\<close> when it comes
  as a data URI; a bare base64 text is left alone.
\<close>

theorem handlers_decode_second_piece_witness:
  "detect_base64 stub_web ''data:image/jpeg;base64,aW1n'' (11 / 10) 5 stub_world
     = (Success \<lparr>faces_count = 1, faces = [(30, 30, 40, 40)], detection_time_ms = 250\<rparr>,
        stub_world\<lparr>wclk := stub_clock\<lparr>reads := 2\<rparr>\<rparr>,
        [SetDetectionParams (11 / 10) 5, DetectFaces 1])
   \<and> ws_message stub_web [''frame'' \<mapsto> JStr ''data:image/jpeg;base64,aW1n'']
        session_defaults stub_world
     = (None, session_defaults, stub_world\<lparr>wclk := stub_clock\<lparr>reads := 2\<rparr>\<rparr>,
        [SetDetectionParams (11 / 10) 5, DetectFaces 1,
         SendJson \<lparr>faces_count = 1, faces = [(30, 30, 40, 40)], detection_time_ms = 250\<rparr>])
   \<and> frame_text (JStr ''data:image/jpeg;base64,aW1n'') = Inr ''aW1n''
   \<and> after_first_comma ''data:image/jpeg;base64,aW1n'' = ''aW1n''
   \<and> frame_text (JStr ''aW1n'') = Inr ''aW1n''
   \<and> decode_image stub_web ''aW1n'' = Inr (Some 1)"
proof -
  let ?u = "''data:image/jpeg;base64,aW1n''"
  let ?d = "[''frame'' \<mapsto> JStr ?u]"
  let ?d' = "[''frame'' \<mapsto> JStr ''aW1n'']"
  have a: "apply_scale_factor stub_web ?d session_defaults = Inr session_defaults"
      "apply_min_neighbors stub_web ?d session_defaults = Inr session_defaults"
      "?d ''frame'' = Some (JStr ?u)"
    and b: "apply_scale_factor stub_web ?d' session_defaults = Inr session_defaults"
      "apply_min_neighbors stub_web ?d' session_defaults = Inr session_defaults"
      "?d' ''frame'' = Some (JStr ''aW1n'')"
    by (simp_all add: apply_scale_factor_def apply_min_neighbors_def)
  have ac: "after_first_comma ?u = ''aW1n''" by (simp add: after_first_comma_def)
  have p: "''aW1n'' = (if CHR '','' \<in> set ?u
              then takeWhile (\<lambda>c. c \<noteq> CHR '','') (after_first_comma ?u) else ?u)"
    by (simp add: ac)
  have q: "''aW1n'' = (if CHR '','' \<in> set ''aW1n''
              then takeWhile (\<lambda>c. c \<noteq> CHR '','') (after_first_comma ''aW1n'') else ''aW1n'')"
    by simp
  have di: "decode_image stub_web ''aW1n'' = Inr (Some 1)"
    by (simp add: decode_image_def stub_web_def)
  have td: "timed_detect stub_web (11 / 10) 5 1 stub_world
      = (Inr \<lparr>faces_count = 1, faces = [(30, 30, 40, 40)], detection_time_ms = 250\<rparr>,
         stub_world\<lparr>wclk := stub_clock\<lparr>reads := 2\<rparr>\<rparr>,
         [SetDetectionParams (11 / 10) 5, DetectFaces 1])"
    by (simp add: web_defs)
  have sd: "scale_factor session_defaults = 11 / 10" "min_neighbors session_defaults = 5"
    by (simp_all add: session_defaults_def)
  note u = handlers_decode_second_piece [OF a p, where sf = "11 / 10" and mn = 5 and w = stub_world and w' = stub_world]
  note v = handlers_decode_second_piece [OF b q, where sf = "11 / 10" and mn = 5 and w = stub_world and w' = stub_world]
  from u have u2: "frame_text (JStr ?u) = Inr ''aW1n''"
    and u4: "detect_base64 stub_web ?u (11 / 10) 5 stub_world =
           (case decode_image stub_web ''aW1n'' of
              Inl e \<Rightarrow> (Status500 e, stub_world, [])
            | Inr None \<Rightarrow> (Status400, stub_world, [])
            | Inr (Some img) \<Rightarrow>
                (case timed_detect stub_web (11 / 10) 5 img stub_world of
                   (Inl e, w', cs) \<Rightarrow> (Status500 e, w', cs)
                 | (Inr res, w', cs) \<Rightarrow> (Success res, w', cs)))"
    and u5: "ws_message stub_web ?d session_defaults stub_world =
           (case decode_image stub_web ''aW1n'' of
              Inl e \<Rightarrow> (Some e, session_defaults, stub_world, [])
            | Inr None \<Rightarrow> (None, session_defaults, stub_world, [])
            | Inr (Some img) \<Rightarrow>
                (case timed_detect stub_web (scale_factor session_defaults)
                        (min_neighbors session_defaults) img stub_world of
                   (Inl e, w1, cs) \<Rightarrow> (Some e, session_defaults, w1, cs)
                 | (Inr res, w1, cs) \<Rightarrow> (None, session_defaults, w1, cs @ [SendJson res])))"
    by blast+
  from v have v2: "frame_text (JStr ''aW1n'') = Inr ''aW1n''" by blast
  have r4: "detect_base64 stub_web ?u (11 / 10) 5 stub_world
     = (Success \<lparr>faces_count = 1, faces = [(30, 30, 40, 40)], detection_time_ms = 250\<rparr>,
        stub_world\<lparr>wclk := stub_clock\<lparr>reads := 2\<rparr>\<rparr>,
        [SetDetectionParams (11 / 10) 5, DetectFaces 1])"
    unfolding u4 di by (simp only: sum.case option.case prod.case td)
  have r5: "ws_message stub_web ?d session_defaults stub_world
     = (None, session_defaults, stub_world\<lparr>wclk := stub_clock\<lparr>reads := 2\<rparr>\<rparr>,
        [SetDetectionParams (11 / 10) 5, DetectFaces 1,
         SendJson \<lparr>faces_count = 1, faces = [(30, 30, 40, 40)], detection_time_ms = 250\<rparr>])"
    unfolding u5 di sd by (simp only: sum.case option.case prod.case td append.simps)
  from r4 r5 u2 ac v2 di show ?thesis by (simp only: simp_thms)
qed

text \<open>
  Claim C9 as stated fails for a payload with a second comma: what follows the first
  comma is \<open>aW1n,AAAA\<close>, which decodes to no image, and both handlers decode \<open>aW1n\<close>
  only and report the face of that picture.
\<close>

theorem handlers_drop_after_second_comma:
  "detect_base64 stub_web ''data:image/jpeg;base64,aW1n,AAAA'' (11 / 10) 5 stub_world
     = (Success \<lparr>faces_count = 1, faces = [(30, 30, 40, 40)], detection_time_ms = 250\<rparr>,
        stub_world\<lparr>wclk := stub_clock\<lparr>reads := 2\<rparr>\<rparr>,
        [SetDetectionParams (11 / 10) 5, DetectFaces 1])
   \<and> ws_message stub_web [''frame'' \<mapsto> JStr ''data:image/jpeg;base64,aW1n,AAAA'']
        session_defaults stub_world
     = (None, session_defaults, stub_world\<lparr>wclk := stub_clock\<lparr>reads := 2\<rparr>\<rparr>,
        [SetDetectionParams (11 / 10) 5, DetectFaces 1,
         SendJson \<lparr>faces_count = 1, faces = [(30, 30, 40, 40)], detection_time_ms = 250\<rparr>])
   \<and> after_first_comma ''data:image/jpeg;base64,aW1n,AAAA'' = ''aW1n,AAAA''
   \<and> decode_image stub_web ''aW1n,AAAA'' = Inr None
   \<and> decode_image stub_web ''aW1n'' = Inr (Some 1)"
  by (simp add: web_defs detect_base64_def after_first_comma_def)

subsection \<open>Parameter updates at the detector\<close>

text \<open>
  The update of the detector as the specification has it, behind each of the three
  handlers that call it.
\<close>

lemma spec_set_eq:
  "set_detection_params (with_spec_detector env) d sf mn =
     (if validate (d\<lparr>det_scale_factor := sf, det_min_neighbors := mn\<rparr>)
      then Inr (d\<lparr>det_scale_factor := sf, det_min_neighbors := mn\<rparr>)
      else Inl InvalidParameter)"
  by (simp add: with_spec_detector_def spec_set_detection_params_def)

lemma timed_detect_rejects:
  assumes "\<not> validate ((detector w)\<lparr>det_scale_factor := sf, det_min_neighbors := mn\<rparr>)"
  shows "timed_detect (with_spec_detector env) sf mn img w
           = (Inl InvalidParameter, w, [SetDetectionParams sf mn])"
  using assms by (simp add: timed_detect_def spec_set_eq)

lemma timed_detect_accepts:
  assumes "validate ((detector w)\<lparr>det_scale_factor := sf, det_min_neighbors := mn\<rparr>)"
  shows "detector (fst (snd (timed_detect (with_spec_detector env) sf mn img w)))
           = (detector w)\<lparr>det_scale_factor := sf, det_min_neighbors := mn\<rparr>"
  using assms
  by (simp add: timed_detect_def spec_set_eq time_time_def Let_def split: sum.splits prod.splits)

lemma detect_image_rejects:
  assumes "imdecode (with_spec_detector env) contents = Inr (Some img)"
    and "\<not> validate ((detector w)\<lparr>det_scale_factor := sf, det_min_neighbors := mn\<rparr>)"
  shows "detect_image (with_spec_detector env) ops contents sf mn w
           = (Upload500 InvalidParameter, w)"
  using assms by (simp add: detect_image_def spec_set_eq)

lemma detect_image_accepts:
  assumes "imdecode (with_spec_detector env) contents = Inr (Some img)"
    and "validate ((detector w)\<lparr>det_scale_factor := sf, det_min_neighbors := mn\<rparr>)"
  shows "detector (snd (detect_image (with_spec_detector env) ops contents sf mn w))
           = (detector w)\<lparr>det_scale_factor := sf, det_min_neighbors := mn\<rparr>"
  using assms
  by (simp add: detect_image_def spec_set_eq time_time_def Let_def split: sum.splits prod.splits)

lemma validate_update:
  assumes "validate d"
  shows "validate (d\<lparr>det_scale_factor := sf, det_min_neighbors := mn\<rparr>) = (1 < sf)"
  using assms by (auto simp add: validate_def split: option.splits)

text \<open>
  Claim C3. Every handler that sets detection parameters hands a scale factor \<open>sf\<close> and
  a neighbour threshold \<open>mn\<close> to \<^verbatim>\<open>set_detection_params\<close> of the global detector:
  \<^verbatim>\<open>detect_image\<close> and \<^verbatim>\<open>detect_base64\<close> their form fields, \<^verbatim>\<open>websocket_detect\<close> the
  values its session holds after a message with a frame. With the update of the
  specification, and \<open>d'\<close> the detector with the supplied values in place: on a detector
  whose parameters are valid the supplied values are invalid exactly when the scale
  factor is at most 1, the sizes being out of reach of the handlers. If they are
  invalid, the update fails with \<open>InvalidParameter\<close>, the two endpoints answer with
  status 500, the session ends with that exception, and the global state, so every
  parameter the detector held, is as it was. If they are valid, the update succeeds
  and the detector holds exactly \<open>d'\<close> when the handler is done.
\<close>

theorem parameter_update_is_atomic:
  assumes "d' = (detector w)\<lparr>det_scale_factor := sf, det_min_neighbors := mn\<rparr>"
    and "e = with_spec_detector env"
    and "imdecode e contents = Inr (Some img1)"
    and "frame_payload s = Inr b1" and "decode_image e b1 = Inr (Some img2)"
    and "case data ''scale_factor'' of None \<Rightarrow> sf = scale_factor sess
           | Some v \<Rightarrow> py_float e v = Inr sf"
    and "case data ''min_neighbors'' of None \<Rightarrow> mn = min_neighbors sess
           | Some u \<Rightarrow> py_int e u = Inr mn"
    and "data ''frame'' = Some fd" and "frame_text fd = Inr b2"
    and "decode_image e b2 = Inr (Some img3)"
  shows "(validate (detector w) \<longrightarrow> validate d' = (1 < sf))
       \<and> (\<not> validate d' \<longrightarrow>
            set_detection_params e (detector w) sf mn = Inl InvalidParameter
            \<and> detect_image e ops contents sf mn w = (Upload500 InvalidParameter, w)
            \<and> detect_base64 e s sf mn w
                = (Status500 InvalidParameter, w, [SetDetectionParams sf mn])
            \<and> ws_message e data sess w
                = (Some InvalidParameter, \<lparr>scale_factor = sf, min_neighbors = mn\<rparr>, w,
                   [SetDetectionParams sf mn]))
       \<and> (validate d' \<longrightarrow>
            set_detection_params e (detector w) sf mn = Inr d'
            \<and> detector (snd (detect_image e ops contents sf mn w)) = d'
            \<and> detector (fst (snd (detect_base64 e s sf mn w))) = d'
            \<and> detector (fst (snd (snd (ws_message e data sess w)))) = d')"
proof (intro conjI impI)
  assume "validate (detector w)"
  then show "validate d' = (1 < sf)"
    unfolding assms(1) by (rule validate_update)
next
  let ?s = "\<lparr>scale_factor = sf, min_neighbors = mn\<rparr>"
  note a = session_after_message [OF assms(6,7)]
  note unf = ws_message_frame [OF a assms(8), of w]
  assume bad: "\<not> validate d'"
  show "set_detection_params e (detector w) sf mn = Inl InvalidParameter"
    using bad unfolding assms(1,2) by (simp add: spec_set_eq)
  show "detect_image e ops contents sf mn w = (Upload500 InvalidParameter, w)"
    using bad assms(3) unfolding assms(1,2) by (rule detect_image_rejects [rotated])
  have t: "\<And>img. timed_detect e sf mn img w
      = (Inl InvalidParameter, w, [SetDetectionParams sf mn])"
    using bad unfolding assms(1,2) by (rule timed_detect_rejects)
  show "detect_base64 e s sf mn w
      = (Status500 InvalidParameter, w, [SetDetectionParams sf mn])"
    using assms(4,5) by (simp add: detect_base64_def t)
  show "ws_message e data sess w
      = (Some InvalidParameter, ?s, w, [SetDetectionParams sf mn])"
    using assms(9,10) by (simp add: unf t)
next
  let ?s = "\<lparr>scale_factor = sf, min_neighbors = mn\<rparr>"
  note a = session_after_message [OF assms(6,7)]
  note unf = ws_message_frame [OF a assms(8), of w]
  assume ok: "validate d'"
  show "set_detection_params e (detector w) sf mn = Inr d'"
    using ok unfolding assms(1,2) by (simp add: spec_set_eq)
  show "detector (snd (detect_image e ops contents sf mn w)) = d'"
    using ok assms(3) unfolding assms(1,2) by (rule detect_image_accepts [rotated])
  have t: "detector (fst (snd (timed_detect e sf mn img w))) = d'" for img
    using ok unfolding assms(1,2) by (rule timed_detect_accepts)
  have t': "detector v = d'" if "timed_detect e sf mn img w = (r, v, cs)" for img r v cs
    using t [of img] that by simp
  show "detector (fst (snd (detect_base64 e s sf mn w))) = d'"
    using assms(4,5)
    by (auto simp add: detect_base64_def split: sum.splits prod.splits dest: t')
  show "detector (fst (snd (snd (ws_message e data sess w)))) = d'"
    using assms(9,10)
    by (auto simp add: unf split: sum.splits prod.splits dest: t')
qed

text \<open>
  The theorem at work on the detector of config.py. The scale factor 0.5 is refused by
  all three handlers and the detector keeps 1.1 and 5; in the session the refusal comes
  with the first frame after the message that brought 0.5, and ends the session. The
  values 1.3 and 7 are taken by all three.
\<close>

theorem parameter_update_is_atomic_witness:
  "detect_image (with_spec_detector stub_web) stub_ops [105, 109, 103] (1 / 2) 5 stub_world
     = (Upload500 InvalidParameter, stub_world)
   \<and> detect_base64 (with_spec_detector stub_web) ''aW1n'' (1 / 2) 5 stub_world
     = (Status500 InvalidParameter, stub_world, [SetDetectionParams (1 / 2) 5])
   \<and> ws_loop (with_spec_detector stub_web)
        [Message [''scale_factor'' \<mapsto> JFloat (1 / 2)], Message [''frame'' \<mapsto> JStr ''aW1n'']]
        session_defaults stub_world
     = (Ended InvalidParameter, \<lparr>scale_factor = 1 / 2, min_neighbors = 5\<rparr>, stub_world,
        [SetDetectionParams (1 / 2) 5])
   \<and> detector (snd (detect_image (with_spec_detector stub_web) stub_ops [105, 109, 103]
        (13 / 10) 7 stub_world))
     = config_detector\<lparr>det_scale_factor := 13 / 10, det_min_neighbors := 7\<rparr>
   \<and> detector (fst (snd (detect_base64 (with_spec_detector stub_web) ''aW1n''
        (13 / 10) 7 stub_world)))
     = config_detector\<lparr>det_scale_factor := 13 / 10, det_min_neighbors := 7\<rparr>
   \<and> detector (fst (snd (snd (ws_message (with_spec_detector stub_web)
        [''scale_factor'' \<mapsto> JFloat (13 / 10), ''min_neighbors'' \<mapsto> JInt 7,
         ''frame'' \<mapsto> JStr ''aW1n''] session_defaults stub_world))))
     = config_detector\<lparr>det_scale_factor := 13 / 10, det_min_neighbors := 7\<rparr>
   \<and> validate config_detector
   \<and> detector stub_world = config_detector
   \<and> validate (config_detector\<lparr>det_scale_factor := 1 / 2, det_min_neighbors := 5\<rparr>) = False
   \<and> validate (config_detector\<lparr>det_scale_factor := 13 / 10, det_min_neighbors := 7\<rparr>)"
proof -
  let ?e = "with_spec_detector stub_web"
  let ?bad = "[''frame'' \<mapsto> JStr ''aW1n'']"
  let ?held = "\<lparr>scale_factor = 1 / 2, min_neighbors = 5\<rparr>"
  let ?good = "[''scale_factor'' \<mapsto> JFloat (13 / 10), ''min_neighbors'' \<mapsto> JInt 7,
         ''frame'' \<mapsto> JStr ''aW1n'']"
  have common: "imdecode ?e [105, 109, 103] = Inr (Some 1)"
      "frame_payload ''aW1n'' = Inr ''aW1n''"
      "decode_image ?e ''aW1n'' = Inr (Some 1)"
      "frame_text (JStr ''aW1n'') = Inr ''aW1n''"
    by (simp_all add: with_spec_detector_def stub_web_def frame_payload_def frame_text_def
          decode_image_def)
  have v: "validate config_detector"
    and nv: "\<not> validate ((detector stub_world)\<lparr>det_scale_factor := 1 / 2, det_min_neighbors := 5\<rparr>)"
    and ok: "validate ((detector stub_world)\<lparr>det_scale_factor := 13 / 10, det_min_neighbors := 7\<rparr>)"
    and dw: "detector stub_world = config_detector"
    by (simp_all add: validate_def config_detector_def stub_world_def)
  have hb: "case ?bad ''scale_factor'' of None \<Rightarrow> 1 / 2 = scale_factor ?held
           | Some v \<Rightarrow> py_float ?e v = Inr (1 / 2)"
      "case ?bad ''min_neighbors'' of None \<Rightarrow> 5 = min_neighbors ?held
           | Some u \<Rightarrow> py_int ?e u = Inr 5"
      "?bad ''frame'' = Some (JStr ''aW1n'')"
    by simp_all
  have hg: "case ?good ''scale_factor'' of None \<Rightarrow> 13 / 10 = scale_factor session_defaults
           | Some v \<Rightarrow> py_float ?e v = Inr (13 / 10)"
      "case ?good ''min_neighbors'' of None \<Rightarrow> 7 = min_neighbors session_defaults
           | Some u \<Rightarrow> py_int ?e u = Inr 7"
      "?good ''frame'' = Some (JStr ''aW1n'')"
    by (simp_all add: py_float_def py_int_def)
  note bad = parameter_update_is_atomic [OF refl refl common(1,2,3) hb common(4,3), where ops = stub_ops and w = stub_world]
  note good = parameter_update_is_atomic [OF refl refl common(1,2,3) hg common(4,3), where ops = stub_ops and w = stub_world]
  have first: "ws_message ?e [''scale_factor'' \<mapsto> JFloat (1 / 2)] session_defaults stub_world
      = (None, ?held, stub_world, [])"
    by (simp add: ws_message_def apply_scale_factor_def apply_min_neighbors_def py_float_def
          session_defaults_def)
  from bad nv have b:
      "detect_image ?e stub_ops [105, 109, 103] (1 / 2) 5 stub_world
         = (Upload500 InvalidParameter, stub_world)"
      "detect_base64 ?e ''aW1n'' (1 / 2) 5 stub_world
         = (Status500 InvalidParameter, stub_world, [SetDetectionParams (1 / 2) 5])"
      "ws_message ?e ?bad ?held stub_world
         = (Some InvalidParameter, ?held, stub_world, [SetDetectionParams (1 / 2) 5])"
    by blast+
  from good [unfolded dw] ok [unfolded dw] have g:
      "detector (snd (detect_image ?e stub_ops [105, 109, 103] (13 / 10) 7 stub_world))
         = config_detector\<lparr>det_scale_factor := 13 / 10, det_min_neighbors := 7\<rparr>"
      "detector (fst (snd (detect_base64 ?e ''aW1n'' (13 / 10) 7 stub_world)))
         = config_detector\<lparr>det_scale_factor := 13 / 10, det_min_neighbors := 7\<rparr>"
      "detector (fst (snd (snd (ws_message ?e ?good session_defaults stub_world))))
         = config_detector\<lparr>det_scale_factor := 13 / 10, det_min_neighbors := 7\<rparr>"
    by blast+
  have loop: "ws_loop ?e [Message [''scale_factor'' \<mapsto> JFloat (1 / 2)], Message ?bad]
        session_defaults stub_world
     = (Ended InvalidParameter, ?held, stub_world, [SetDetectionParams (1 / 2) 5])"
    by (simp add: first b(3))
  from nv [unfolded dw]
  have nv': "validate (config_detector\<lparr>det_scale_factor := 1 / 2, det_min_neighbors := 5\<rparr>) = False"
    by (simp only: simp_thms)
  from b(1,2) loop g v dw nv' ok [unfolded dw] show ?thesis by (simp only: simp_thms)
qed

subsection \<open>Sessions side by side\<close>

lemma detector_eqI:
  fixes d1 d2 :: face_detector
  assumes "det_scale_factor d1 = det_scale_factor d2"
    and "det_min_neighbors d1 = det_min_neighbors d2"
    and "det_min_size d1 = det_min_size d2" and "det_max_size d1 = det_max_size d2"
  shows "d1 = d2"
  using assms by (cases d1, cases d2) simp

lemma spec_set_same:
  assumes "same_bounds d1 d2"
  shows "spec_set_detection_params d1 sf mn = spec_set_detection_params d2 sf mn"
proof -
  have "d1\<lparr>det_scale_factor := sf, det_min_neighbors := mn\<rparr>
      = d2\<lparr>det_scale_factor := sf, det_min_neighbors := mn\<rparr>"
    using assms by (intro detector_eqI) (simp_all add: same_bounds_def)
  then show ?thesis by (simp add: spec_set_detection_params_def)
qed

lemma spec_set_bounds:
  assumes "spec_set_detection_params d sf mn = Inr d'"
  shows "same_bounds d' d"
  using assms
  by (auto simp add: spec_set_detection_params_def same_bounds_def Let_def split: if_splits)

lemma same_bounds_refl: "same_bounds d d"
  by (simp add: same_bounds_def)

lemma same_bounds_sym: "same_bounds d1 d2 \<Longrightarrow> same_bounds d2 d1"
  by (simp add: same_bounds_def)

lemma same_bounds_trans: "same_bounds d1 d2 \<Longrightarrow> same_bounds d2 d3 \<Longrightarrow> same_bounds d1 d3"
  by (simp add: same_bounds_def)

lemma timed_detect_bounds:
  "same_bounds (detector (fst (snd (timed_detect (with_spec_detector env) sf mn img w))))
     (detector w)"
  by (auto simp add: timed_detect_def with_spec_detector_def time_time_def Let_def
        same_bounds_refl spec_set_bounds split: sum.splits prod.splits)

lemma timed_detect_alike:
  assumes "same_bounds (detector w1) (detector w2)"
  shows "map_sum id (\<lambda>r. r\<lparr>detection_time_ms := 0\<rparr>)
           (fst (timed_detect (with_spec_detector env) sf mn img w1))
         = map_sum id (\<lambda>r. r\<lparr>detection_time_ms := 0\<rparr>)
           (fst (timed_detect (with_spec_detector env) sf mn img w2))
       \<and> snd (snd (timed_detect (with_spec_detector env) sf mn img w1))
         = snd (snd (timed_detect (with_spec_detector env) sf mn img w2))"
  using spec_set_same [OF assms, of sf mn]
  by (auto simp add: timed_detect_def with_spec_detector_def time_time_def Let_def
        split: sum.splits prod.splits)


lemma ws_message_frame':
  assumes "apply_scale_factor env data sess = Inr s1"
    and "apply_min_neighbors env data s1 = Inr s2"
    and "data ''frame'' = Some fd"
    and "frame_text fd = Inr b64" and "decode_image env b64 = Inr (Some img)"
    and "timed_detect env (scale_factor s2) (min_neighbors s2) img w = (r, w', cs)"
  shows "ws_message env data sess w =
     (case r of Inl e \<Rightarrow> (Some e, s2, w', cs) | Inr res \<Rightarrow> (None, s2, w', cs @ [SendJson res]))"
  using assms by (simp add: ws_message_frame split: sum.splits)

lemma ws_message_alike:
  assumes "same_bounds (detector w1) (detector w2)"
  shows "fst (ws_message (with_spec_detector env) data sess w1)
           = fst (ws_message (with_spec_detector env) data sess w2)
       \<and> fst (snd (ws_message (with_spec_detector env) data sess w1))
           = fst (snd (ws_message (with_spec_detector env) data sess w2))
       \<and> map blank_time (snd (snd (snd (ws_message (with_spec_detector env) data sess w1))))
           = map blank_time (snd (snd (snd (ws_message (with_spec_detector env) data sess w2))))"
proof -
  let ?env = "with_spec_detector env"
  show ?thesis
  proof (cases "apply_scale_factor ?env data sess")
    case (Inl e)
    then show ?thesis by (simp add: ws_message_def)
  next
    case s1: (Inr s1)
    show ?thesis
    proof (cases "apply_min_neighbors ?env data s1")
      case (Inl e)
      with s1 show ?thesis by (simp add: ws_message_def)
    next
      case s2: (Inr s2)
      show ?thesis
      proof (cases "data ''frame''")
        case None
        with s1 s2 show ?thesis by (simp add: ws_message_no_frame)
      next
        case (Some fd)
        note unf = ws_message_frame [OF s1 s2 Some]
        show ?thesis
        proof (cases "frame_text fd")
          case (Inl e)
          then show ?thesis by (simp add: unf)
        next
          case b: (Inr b64)
          show ?thesis
          proof (cases "decode_image ?env b64")
            case (Inl e)
            with b show ?thesis by (simp add: unf)
          next
            case d: (Inr oi)
            show ?thesis
            proof (cases oi)
              case None
              with b d show ?thesis by (simp add: unf)
            next
              case img: (Some img)
              obtain r1 v1 cs1 where t1:
                "timed_detect ?env (scale_factor s2) (min_neighbors s2) img w1 = (r1, v1, cs1)"
                by (cases "timed_detect ?env (scale_factor s2) (min_neighbors s2) img w1")
              obtain r2 v2 cs2 where t2:
                "timed_detect ?env (scale_factor s2) (min_neighbors s2) img w2 = (r2, v2, cs2)"
                by (cases "timed_detect ?env (scale_factor s2) (min_neighbors s2) img w2")
              from timed_detect_alike [OF assms, of env "scale_factor s2" "min_neighbors s2" img]
                t1 t2
              have eq: "map_sum id (\<lambda>r. r\<lparr>detection_time_ms := 0\<rparr>) r1
                   = map_sum id (\<lambda>r. r\<lparr>detection_time_ms := 0\<rparr>) r2" "cs1 = cs2"
                by simp_all
              from d img have d': "decode_image ?env b64 = Inr (Some img)" by simp
              note m1 = ws_message_frame' [OF s1 s2 Some b d' t1]
              note m2 = ws_message_frame' [OF s1 s2 Some b d' t2]
              from eq show ?thesis
                by (cases r1; cases r2) (simp_all add: m1 m2 blank_time_def)
            qed
          qed
        qed
      qed
    qed
  qed
qed

lemma ws_message_bounds:
  "same_bounds (detector (fst (snd (snd (ws_message (with_spec_detector env) data sess w)))))
     (detector w)"
proof -
  have "\<And>sf mn img r w' cs. timed_detect (with_spec_detector env) sf mn img w = (r, w', cs)
      \<Longrightarrow> same_bounds (detector w') (detector w)"
    using timed_detect_bounds [of env _ _ _ w] by (metis fst_conv snd_conv)
  then show ?thesis
    by (auto simp add: ws_message_def same_bounds_refl
          split: sum.splits option.splits prod.splits)
qed

lemma observed_append: "observed i (xs @ ys) = observed i xs @ observed i ys"
  by (simp add: observed_def)

lemma observed_own: "observed i (map (Pair i) cs) = map blank_time cs"
  by (simp add: observed_def filter_map comp_def)

lemma observed_other: "j \<noteq> i \<Longrightarrow> observed i (map (Pair j) cs) = []"
  by (simp add: observed_def filter_map comp_def)

lemma alike_for_refl: "alike_for i sv sv"
  by (simp add: alike_for_def same_bounds_refl)

lemma alike_for_trans: "alike_for i sv1 sv2 \<Longrightarrow> alike_for i sv2 sv3 \<Longrightarrow> alike_for i sv1 sv3"
  by (auto simp add: alike_for_def intro: same_bounds_trans)

text \<open>Confinement: a pass of another connection changes nothing connection \<open>i\<close> can see.\<close>

lemma server_step_other:
  assumes "j \<noteq> i"
  shows "alike_for i (fst (server_step (with_spec_detector env) (j, ev) sv)) sv
       \<and> observed i (snd (server_step (with_spec_detector env) (j, ev) sv)) = []"
proof (cases ev)
  case Connect
  with assms show ?thesis
    by (simp add: server_step_def alike_for_def same_bounds_refl observed_def)
next
  case (Inbound inb)
  show ?thesis
  proof (cases inb)
    case Disconnect
    with Inbound assms show ?thesis
      by (simp add: server_step_def alike_for_def same_bounds_refl observed_def)
  next
    case (Message data)
    show ?thesis
    proof (cases "sessions sv j")
      case None
      with Inbound Message show ?thesis
        by (simp add: server_step_def alike_for_refl observed_def)
    next
      case (Some sess)
      obtain r s' w' cs where m:
        "ws_message (with_spec_detector env) data sess (globals sv) = (r, s', w', cs)"
        by (cases "ws_message (with_spec_detector env) data sess (globals sv)")
      from ws_message_bounds [of env data sess "globals sv"] m
      have "same_bounds (detector w') (detector (globals sv))" by simp
      with Inbound Message Some m assms show ?thesis
        by (cases r) (simp_all add: server_step_def alike_for_def observed_other)
    qed
  qed
qed

text \<open>Consistency: a pass of connection \<open>i\<close> itself looks the same from alike servers.\<close>

lemma server_step_own:
  assumes "alike_for i sv1 sv2"
  shows "alike_for i (fst (server_step (with_spec_detector env) (i, ev) sv1))
           (fst (server_step (with_spec_detector env) (i, ev) sv2))
       \<and> observed i (snd (server_step (with_spec_detector env) (i, ev) sv1))
           = observed i (snd (server_step (with_spec_detector env) (i, ev) sv2))"
proof (cases ev)
  case Connect
  with assms show ?thesis
    by (simp add: server_step_def alike_for_def)
next
  case (Inbound inb)
  show ?thesis
  proof (cases inb)
    case Disconnect
    with Inbound assms show ?thesis
      by (simp add: server_step_def alike_for_def)
  next
    case (Message data)
    from assms have ss: "sessions sv1 i = sessions sv2 i"
      and sb: "same_bounds (detector (globals sv1)) (detector (globals sv2))"
      by (simp_all add: alike_for_def)
    show ?thesis
    proof (cases "sessions sv1 i")
      case None
      with Inbound Message ss assms show ?thesis
        by (simp add: server_step_def)
    next
      case (Some sess)
      let ?env = "with_spec_detector env"
      obtain r1 s1 w1 cs1 where m1:
        "ws_message ?env data sess (globals sv1) = (r1, s1, w1, cs1)"
        by (cases "ws_message ?env data sess (globals sv1)")
      obtain r2 s2 w2 cs2 where m2:
        "ws_message ?env data sess (globals sv2) = (r2, s2, w2, cs2)"
        by (cases "ws_message ?env data sess (globals sv2)")
      from ws_message_alike [OF sb, of env data sess] m1 m2
      have eq: "r1 = r2" "s1 = s2" "map blank_time cs1 = map blank_time cs2" by simp_all
      from ws_message_bounds [of env data sess "globals sv1"] m1
      have b1: "same_bounds (detector w1) (detector (globals sv1))" by simp
      from ws_message_bounds [of env data sess "globals sv2"] m2
      have b2: "same_bounds (detector w2) (detector (globals sv2))" by simp
      from b1 sb b2 have "same_bounds (detector w1) (detector w2)"
        by (blast intro: same_bounds_trans same_bounds_sym)
      with Inbound Message Some ss m1 m2 eq show ?thesis
        by (cases r2) (simp_all add: server_step_def alike_for_def observed_own)
    qed
  qed
qed

lemma server_run_Cons:
  "snd (server_run env (ev # evs) sv) =
     snd (server_step env ev sv) @ snd (server_run env evs (fst (server_step env ev sv)))"
  by (simp split: prod.splits)

lemma server_run_alike:
  assumes "alike_for i sv1 sv2"
  shows "observed i (snd (server_run (with_spec_detector env) evs sv1))
       = observed i (snd (server_run (with_spec_detector env)
                            (filter (\<lambda>p. fst p = i) evs) sv2))"
  using assms
proof (induction evs arbitrary: sv1 sv2)
  case Nil
  show ?case by (simp add: observed_def)
next
  case (Cons p evs)
  let ?env = "with_spec_detector env"
  obtain j ev where p: "p = (j, ev)" by (cases p)
  obtain sv1' cs1 where st1: "server_step ?env (j, ev) sv1 = (sv1', cs1)"
    by (cases "server_step ?env (j, ev) sv1")
  show ?case
  proof (cases "j = i")
    case True
    obtain sv2' cs2 where st2: "server_step ?env (j, ev) sv2 = (sv2', cs2)"
      by (cases "server_step ?env (j, ev) sv2")
    from server_step_own [OF Cons.prems, of env ev] True st1 st2
    have al: "alike_for i sv1' sv2'" and ob: "observed i cs1 = observed i cs2" by simp_all
    from Cons.IH [OF al] ob True p st1 st2 show ?thesis
      by (simp add: observed_append server_run_Cons del: server_run.simps)
  next
    case False
    from server_step_other [OF False, of env ev sv1] st1
    have "alike_for i sv1' sv1" and ob: "observed i cs1 = []" by simp_all
    with Cons.prems have al: "alike_for i sv1' sv2" by (blast intro: alike_for_trans)
    from Cons.IH [OF al] ob False p st1 show ?thesis
      by (simp add: observed_append server_run_Cons del: server_run.simps)
  qed
qed

text \<open>The session of a connection is out of reach of the passes of the others, whatever the detector.\<close>

lemma other_session_untouched:
  assumes "j \<noteq> i"
  shows "sessions (fst (server_step env (j, ev) sv)) i = sessions sv i"
proof (cases ev)
  case Connect
  with assms show ?thesis by (simp add: server_step_def)
next
  case (Inbound inb)
  show ?thesis
  proof (cases inb)
    case Disconnect
    with Inbound assms show ?thesis by (simp add: server_step_def)
  next
    case (Message data)
    show ?thesis
    proof (cases "sessions sv j")
      case None
      with Inbound Message show ?thesis by (simp add: server_step_def)
    next
      case (Some sess)
      obtain r s' w' cs where "ws_message env data sess (globals sv) = (r, s', w', cs)"
        by (cases "ws_message env data sess (globals sv)")
      with Inbound Message Some assms show ?thesis
        by (cases r) (simp_all add: server_step_def)
    qed
  qed
qed

text \<open>
  Claim C1. Several realtime sessions run on one server, their message passes
  interleaved in any order. Whatever the detector does, a message pass of one
  connection leaves the parameters every other session holds as they were: they are
  locals of each handler. With the parameter update of the detector as specified, what
  a connection observes (the parameters its handler sets on the detector, the frames it
  detects and the faces it reports) is what it observes when its own events run alone
  from the same server state: no parameter that another session applied, before or
  between its messages, shows in the parameters of its detections or in their results.
  The detector object is shared, and every detection sets it to the session's own
  values first.
\<close>

theorem sessions_do_not_interfere:
  "(j \<noteq> i \<longrightarrow> sessions (fst (server_step env' (j, ev) sv')) i = sessions sv' i)
   \<and> observed i (snd (server_run (with_spec_detector env) evs sv))
     = observed i (snd (server_run (with_spec_detector env) (filter (\<lambda>p. fst p = i) evs) sv))"
  using other_session_untouched [of j i env' ev sv']
    server_run_alike [OF alike_for_refl, of i env evs sv]
  by blast

text \<open>
  The theorem at work: connection 0 sets the scale factor 1.5 and has a frame detected,
  then connection 1 sends a frame without parameters. The message of connection 0
  leaves the session of connection 1 at the defaults; connection 1 detects with the
  default 1.1, connection 0 with its 1.5.
\<close>

theorem sessions_do_not_interfere_witness:
  "sessions (fst (server_step stub_web
        (0, Inbound (Message [''scale_factor'' \<mapsto> JFloat (3 / 2), ''frame'' \<mapsto> JStr ''aW1n'']))
        \<lparr>sessions = (\<lambda>i. None)(0 := Some session_defaults, 1 := Some session_defaults),
         globals = stub_world\<rparr>)) 1
     = Some session_defaults
   \<and> sessions (fst (server_step stub_web
        (0, Inbound (Message [''scale_factor'' \<mapsto> JFloat (3 / 2), ''frame'' \<mapsto> JStr ''aW1n'']))
        \<lparr>sessions = (\<lambda>i. None)(0 := Some session_defaults, 1 := Some session_defaults),
         globals = stub_world\<rparr>)) 0
     = Some \<lparr>scale_factor = 3 / 2, min_neighbors = 5\<rparr>
   \<and> observed 1 (snd (server_run (with_spec_detector stub_web)
       [(0, Connect), (1, Connect),
        (0, Inbound (Message [''scale_factor'' \<mapsto> JFloat (3 / 2), ''frame'' \<mapsto> JStr ''aW1n''])),
        (1, Inbound (Message [''frame'' \<mapsto> JStr ''aW1n'']))]
       \<lparr>sessions = (\<lambda>i. None), globals = stub_world\<rparr>))
     = [SetDetectionParams (11 / 10) 5, DetectFaces 1,
        SendJson \<lparr>faces_count = 1, faces = [(30, 30, 40, 40)], detection_time_ms = 0\<rparr>]
   \<and> observed 0 (snd (server_run (with_spec_detector stub_web)
       [(0, Connect), (1, Connect),
        (0, Inbound (Message [''scale_factor'' \<mapsto> JFloat (3 / 2), ''frame'' \<mapsto> JStr ''aW1n''])),
        (1, Inbound (Message [''frame'' \<mapsto> JStr ''aW1n'']))]
       \<lparr>sessions = (\<lambda>i. None), globals = stub_world\<rparr>))
     = [SetDetectionParams (3 / 2) 5, DetectFaces 1,
        SendJson \<lparr>faces_count = 1, faces = [(30, 30, 40, 40)], detection_time_ms = 0\<rparr>]"
proof -
  let ?m = "Inbound (Message [''scale_factor'' \<mapsto> JFloat (3 / 2), ''frame'' \<mapsto> JStr ''aW1n''])"
  let ?evs = "[(0::nat, Connect), (1, Connect), (0, ?m),
        (1, Inbound (Message [''frame'' \<mapsto> JStr ''aW1n'']))]"
  let ?sv = "\<lparr>sessions = (\<lambda>i. None), globals = stub_world\<rparr>"
  let ?both = "\<lparr>sessions = (\<lambda>i. None)(0 := Some session_defaults, 1 := Some session_defaults),
         globals = stub_world\<rparr>"
  have ne: "(0::nat) \<noteq> 1" by simp
  have before: "sessions ?both 1 = Some session_defaults" by simp
  have own: "sessions (fst (server_step stub_web (0, ?m) ?both)) 0
      = Some \<lparr>scale_factor = 3 / 2, min_neighbors = 5\<rparr>"
    by (simp add: server_step_def web_defs)
  have alone1: "observed 1 (snd (server_run (with_spec_detector stub_web)
        (filter (\<lambda>p. fst p = 1) ?evs) ?sv))
     = [SetDetectionParams (11 / 10) 5, DetectFaces 1,
        SendJson \<lparr>faces_count = 1, faces = [(30, 30, 40, 40)], detection_time_ms = 0\<rparr>]"
    by (simp add: server_step_def with_spec_detector_def observed_def blank_time_def web_defs)
  have alone0: "observed 0 (snd (server_run (with_spec_detector stub_web)
        (filter (\<lambda>p. fst p = 0) ?evs) ?sv))
     = [SetDetectionParams (3 / 2) 5, DetectFaces 1,
        SendJson \<lparr>faces_count = 1, faces = [(30, 30, 40, 40)], detection_time_ms = 0\<rparr>]"
    by (simp add: server_step_def with_spec_detector_def observed_def blank_time_def web_defs)
  from sessions_do_not_interfere [of 0 1 stub_web ?m ?both stub_web ?evs ?sv] ne before
  have a: "sessions (fst (server_step stub_web (0, ?m) ?both)) 1 = Some session_defaults"
    and b: "observed 1 (snd (server_run (with_spec_detector stub_web) ?evs ?sv))
      = observed 1 (snd (server_run (with_spec_detector stub_web)
          (filter (\<lambda>p. fst p = 1) ?evs) ?sv))"
    by (simp_all only: simp_thms)
  from sessions_do_not_interfere [of 1 0 stub_web ?m ?both stub_web ?evs ?sv]
  have c: "observed 0 (snd (server_run (with_spec_detector stub_web) ?evs ?sv))
      = observed 0 (snd (server_run (with_spec_detector stub_web)
          (filter (\<lambda>p. fst p = 0) ?evs) ?sv))"
    by (simp only: simp_thms)
  from a own b c alone1 alone0 show ?thesis by (simp only: simp_thms)
qed

text \<open>
  The same run as the server sees it: the shared detector is set to 1.5 by connection 0
  and back to 1.1 by connection 1 before its detection.
\<close>

lemma interleaved_run:
  "snd (server_run (with_spec_detector stub_web)
       [(0, Connect), (1, Connect),
        (0, Inbound (Message [''scale_factor'' \<mapsto> JFloat (3 / 2), ''frame'' \<mapsto> JStr ''aW1n''])),
        (1, Inbound (Message [''frame'' \<mapsto> JStr ''aW1n'']))]
       \<lparr>sessions = (\<lambda>i. None), globals = stub_world\<rparr>)
     = [(0, SetDetectionParams (3 / 2) 5), (0, DetectFaces 1),
        (0, SendJson \<lparr>faces_count = 1, faces = [(30, 30, 40, 40)], detection_time_ms = 250\<rparr>),
        (1, SetDetectionParams (11 / 10) 5), (1, DetectFaces 1),
        (1, SendJson \<lparr>faces_count = 1, faces = [(30, 30, 40, 40)], detection_time_ms = 250\<rparr>)]"
  by (simp add: server_step_def with_spec_detector_def web_defs)

end
